theory Spec2Isabelle
  imports Main
begin

section \<open>Searchees and configuration\<close>

text \<open>
  A searchee as \<^verbatim>\<open>preFilter.ts\<close> and \<^verbatim>\<open>Deluge.ts\<close> read it: \<^verbatim>\<open>name\<close>, \<^verbatim>\<open>files\<close>, the
  optional \<^verbatim>\<open>path\<close> and the optional \<^verbatim>\<open>infoHash\<close>. An absent optional field
  (\<^verbatim>\<open>undefined\<close>) is \<open>None\<close>.
\<close>

record searchee_file =
  file_name :: string
  file_length :: nat

record searchee =
  name :: string
  files :: "searchee_file list"
  path :: "string option"
  infoHash :: "string option"

text \<open>
  JavaScript truthiness of an optional string, as in \<^verbatim>\<open>cur.infoHash && ...\<close>:
  \<^verbatim>\<open>undefined\<close> and the empty string are falsy, every other string is truthy.
\<close>

definition truthy_opt_string :: "string option \<Rightarrow> bool" where
  "truthy_opt_string x = (case x of None \<Rightarrow> False | Some h \<Rightarrow> h \<noteq> [])"

text \<open>
  The parts of a parsed \<^verbatim>\<open>URL\<close> that \<^verbatim>\<open>Deluge.ts\<close> reads, and the fields of
  \<^verbatim>\<open>getRuntimeConfig()\<close> that the two files read. An option that is not a number
  (\<^verbatim>\<open>typeof x !== "number"\<close>) is \<open>None\<close>; durations are in milliseconds.
\<close>

record url =
  origin :: string
  pathname :: string
  username :: string
  password :: string

record runtime_config =
  excludeOlder :: "int option"
  excludeRecentSearch :: "int option"
  config_delugeWebUrl :: url
  dataCategory :: string
  skipRecheck :: bool

section \<open>The duplicate resolver (preFilter.ts, filterDupes)\<close>

text \<open>
  A JavaScript \<^verbatim>\<open>Map\<close> keeps its keys in insertion order, and \<^verbatim>\<open>set\<close> on a key that is
  present replaces the value where the key already stands. It is an association list
  with distinct keys: \<open>map_get\<close> is \<^verbatim>\<open>Map.get\<close>, \<open>map_set\<close> is \<^verbatim>\<open>Map.set\<close>, \<open>map_values\<close>
  is \<^verbatim>\<open>Array.from(m.values())\<close>.
\<close>

type_synonym ('k, 'v) js_map = "('k \<times> 'v) list"

fun map_get :: "('k, 'v) js_map \<Rightarrow> 'k \<Rightarrow> 'v option" where
  "map_get [] k = None"
| "map_get ((k', v') # m) k = (if k' = k then Some v' else map_get m k)"

fun map_set :: "('k, 'v) js_map \<Rightarrow> 'k \<Rightarrow> 'v \<Rightarrow> ('k, 'v) js_map" where
  "map_set [] k v = [(k, v)]"
| "map_set ((k', v') # m) k v =
     (if k' = k then (k, v) # m else (k', v') # map_set m k v)"

definition map_values :: "('k, 'v) js_map \<Rightarrow> 'v list" where
  "map_values m = map snd m"

text \<open>
  The callback of \<^verbatim>\<open>searchees.reduce\<close> in \<^verbatim>\<open>filterDupes\<close>: a name seen for the first
  time is stored; a name already stored is overwritten only when the current searchee has
  a truthy \<^verbatim>\<open>infoHash\<close> and the stored one has not.
\<close>

definition dupes_step :: "(string, searchee) js_map \<Rightarrow> searchee \<Rightarrow> (string, searchee) js_map" where
  "dupes_step acc cur =
     (case map_get acc (name cur) of
        None \<Rightarrow> map_set acc (name cur) cur
      | Some entry \<Rightarrow>
          if truthy_opt_string (infoHash cur) \<and> \<not> truthy_opt_string (infoHash entry)
          then map_set acc (name cur) cur
          else acc)"

text \<open>\<^verbatim>\<open>filterDupes\<close>; the log line about the number of duplicates is not modelled.\<close>

definition filterDupes :: "searchee list \<Rightarrow> searchee list" where
  "filterDupes searchees = map_values (foldl dupes_step [] searchees)"

text \<open>
  Two notions for the proofs. The map of \<open>filterDupes\<close> stores every searchee under its
  own name, each name once; and \<open>resolve\<close> is what one reduction step leaves under a name
  that held \<open>old\<close> before.
\<close>

definition keyed_by_name :: "(string, searchee) js_map \<Rightarrow> bool" where
  "keyed_by_name m = (distinct (map fst m) \<and> (\<forall>(k, v) \<in> set m. name v = k))"

definition resolve :: "searchee option \<Rightarrow> searchee \<Rightarrow> searchee" where
  "resolve old cur =
     (case old of
        None \<Rightarrow> cur
      | Some entry \<Rightarrow>
          if truthy_opt_string (infoHash cur) \<and> \<not> truthy_opt_string (infoHash entry)
          then cur else entry)"

section \<open>The timestamp gate (preFilter.ts, filterTimestamps)\<close>

text \<open>
  The three tables the query of \<^verbatim>\<open>filterTimestamps\<close> joins, with the columns it names:
  \<^verbatim>\<open>searchee.id\<close>, \<^verbatim>\<open>searchee.name\<close>, \<^verbatim>\<open>indexer.id\<close>, \<^verbatim>\<open>timestamp.searchee_id\<close>,
  \<^verbatim>\<open>timestamp.indexer_id\<close>, \<^verbatim>\<open>timestamp.first_searched\<close>, \<^verbatim>\<open>timestamp.last_searched\<close>.
  A column that is \<^verbatim>\<open>NULL\<close> is \<open>None\<close>. Timestamps are integers (milliseconds since the
  epoch); the rounding of the 64-bit sentinel to a JavaScript double is not modelled.
\<close>

record searchee_row =
  searchee_id :: int
  searchee_name :: string

record indexer_row =
  indexer_id :: int

record timestamp_row =
  ts_searchee_id :: int
  ts_indexer_id :: int
  first_searched :: "int option"
  last_searched :: "int option"

record database =
  searchee_table :: "searchee_row list"
  indexer_table :: "indexer_row list"
  timestamp_table :: "timestamp_row list"

type_synonym joined_row = "searchee_row \<times> indexer_row \<times> timestamp_row option"

text \<open>
  \<^verbatim>\<open>leftOuterJoin("timestamp", {...})\<close> for one row of \<^verbatim>\<open>searchee CROSS JOIN indexer\<close>: one
  joined row per matching timestamp row, and a single row with \<^verbatim>\<open>NULL\<close> timestamp
  columns when none matches.
\<close>

definition leftOuterJoin_timestamp ::
  "database \<Rightarrow> searchee_row \<times> indexer_row \<Rightarrow> joined_row list" where
  "leftOuterJoin_timestamp db si =
     (case si of (s, i) \<Rightarrow>
        (case filter (\<lambda>t. ts_indexer_id t = indexer_id i \<and> ts_searchee_id t = searchee_id s)
                (timestamp_table db) of
           [] \<Rightarrow> [(s, i, None)]
         | ts \<Rightarrow> map (\<lambda>t. (s, i, Some t)) ts))"

text \<open>The joined rows that pass \<^verbatim>\<open>where("searchee.name", name)\<close> and
  \<^verbatim>\<open>whereIn("indexer.id", ids)\<close>.\<close>

definition joined_rows :: "database \<Rightarrow> string \<Rightarrow> int list \<Rightarrow> joined_row list" where
  "joined_rows db nm ids =
     filter (\<lambda>(s, i, t). searchee_name s = nm \<and> indexer_id i \<in> set ids)
       (concat (map (leftOuterJoin_timestamp db)
          (List.product (searchee_table db) (indexer_table db))))"

definition coalesce :: "int option \<Rightarrow> int \<Rightarrow> int" where
  "coalesce x d = (case x of None \<Rightarrow> d | Some v \<Rightarrow> v)"

definition timestamp_column :: "(timestamp_row \<Rightarrow> int option) \<Rightarrow> joined_row \<Rightarrow> int option" where
  "timestamp_column col r =
     (case r of (s, i, t) \<Rightarrow> (case t of None \<Rightarrow> None | Some row \<Rightarrow> col row))"

text \<open>The SQL aggregate \<^verbatim>\<open>min\<close>: \<^verbatim>\<open>NULL\<close> over no rows.\<close>

definition sql_min :: "int list \<Rightarrow> int option" where
  "sql_min vs = (case vs of [] \<Rightarrow> None | v # rest \<Rightarrow> Some (fold min rest v))"

record timestamp_aggregate =
  first_searched_any :: "int option"
  last_searched_all :: "int option"

text \<open>The query of \<^verbatim>\<open>filterTimestamps\<close>: both aggregates are \<^verbatim>\<open>.min(...)\<close>.\<close>

definition timestampDataSql :: "database \<Rightarrow> string \<Rightarrow> int list \<Rightarrow> timestamp_aggregate" where
  "timestampDataSql db nm ids =
     \<lparr>first_searched_any =
        sql_min (map (\<lambda>r. coalesce (timestamp_column first_searched r) 9223372036854775807)
                   (joined_rows db nm ids)),
      last_searched_all =
        sql_min (map (\<lambda>r. coalesce (timestamp_column last_searched r) 0)
                   (joined_rows db nm ids))\<rparr>"

text \<open>
  Modelled from the spec: \<^verbatim>\<open>nMsAgo\<close> of \<^verbatim>\<open>utils.js\<close>, which is not among the sources;
  the spec calls its value "now-minus-that-duration". The clock \<open>now\<close> is a parameter.
\<close>

definition nMsAgo :: "int \<Rightarrow> int \<Rightarrow> int" where
  "nMsAgo now n = now - n"

text \<open>
  \<^verbatim>\<open>filterTimestamps\<close>. The enabled indexers (\<^verbatim>\<open>getEnabledIndexers()\<close>) and the clock are
  parameters. A number is truthy when it is neither \<^verbatim>\<open>null\<close> nor zero. Logging is not
  modelled.
\<close>

definition filterTimestamps ::
  "runtime_config \<Rightarrow> database \<Rightarrow> indexer_row list \<Rightarrow> int \<Rightarrow> searchee \<Rightarrow> bool" where
  "filterTimestamps cfg db enabledIndexers now s =
     (let row = timestampDataSql db (name s) (map indexer_id enabledIndexers) in
      if (case (excludeOlder cfg, first_searched_any row) of
            (Some older, Some first_any) \<Rightarrow> first_any \<noteq> 0 \<and> first_any < nMsAgo now older
          | _ \<Rightarrow> False)
      then False
      else if (case (excludeRecentSearch cfg, last_searched_all row) of
                 (Some recent, Some last_all) \<Rightarrow> last_all \<noteq> 0 \<and> last_all > nMsAgo now recent
               | _ \<Rightarrow> False)
      then False
      else True)"

text \<open>
  The aggregate as the specification words it: the latest last-search timestamp among
  the enabled indexers, zero when the searchee has not been searched on any of them.
\<close>

definition spec_last_searched_all :: "database \<Rightarrow> string \<Rightarrow> int list \<Rightarrow> int" where
  "spec_last_searched_all db nm ids =
     (let searched =
        concat (map (\<lambda>t. case last_searched t of None \<Rightarrow> [] | Some v \<Rightarrow> [v])
          (filter (\<lambda>t. ts_indexer_id t \<in> set ids \<and>
                        ts_searchee_id t \<in> set (map searchee_id
                          (filter (\<lambda>s. searchee_name s = nm) (searchee_table db))))
             (timestamp_table db)))
      in case searched of [] \<Rightarrow> 0 | v # rest \<Rightarrow> fold max rest v)"

text \<open>
  A searchee name has never been searched on the indexers \<open>ids\<close>: every timestamp row of
  a searchee of that name and one of those indexers, if there is any, holds no time.
\<close>

definition never_searched :: "database \<Rightarrow> string \<Rightarrow> int list \<Rightarrow> bool" where
  "never_searched db nm ids =
     (\<forall>t \<in> set (timestamp_table db). \<forall>s \<in> set (searchee_table db).
        searchee_name s = nm \<and> ts_searchee_id t = searchee_id s \<and> ts_indexer_id t \<in> set ids
        \<longrightarrow> first_searched t = None \<and> last_searched t = None)"

text \<open>An example database: one searchee, three indexers, searched on the first two.\<close>

definition example_db :: database where
  "example_db =
     \<lparr>searchee_table = [\<lparr>searchee_id = 1, searchee_name = ''show''\<rparr>],
      indexer_table = [\<lparr>indexer_id = 1\<rparr>, \<lparr>indexer_id = 2\<rparr>, \<lparr>indexer_id = 3\<rparr>],
      timestamp_table =
        [\<lparr>ts_searchee_id = 1, ts_indexer_id = 1,
          first_searched = Some 1700000000000, last_searched = Some 1700000100000\<rparr>,
         \<lparr>ts_searchee_id = 1, ts_indexer_id = 2,
          first_searched = Some 1700000050000, last_searched = Some 1700000200000\<rparr>]\<rparr>"

section \<open>JavaScript values (Deluge.ts)\<close>

text \<open>
  The body of a reply is parsed JSON, and \<^verbatim>\<open>Deluge.ts\<close> reads it without checking its
  shape, so the model keeps the values as JavaScript has them. \<open>JUndefined\<close> is
  \<^verbatim>\<open>undefined\<close> (a member that is missing). Numbers are integers and strings are ASCII; an
  object is the list of its own members, the first entry of a key being the member.
\<close>

datatype jsval =
  JUndefined
  | JNull
  | JBool bool
  | JNum int
  | JStr string
  | JArr "jsval list"
  | JObj "(string \<times> jsval) list"

text \<open>The two kinds of fault the code raises: the \<^verbatim>\<open>CrossSeedError\<close> it throws itself, and
  the \<^verbatim>\<open>TypeError\<close> of the runtime on a member read of \<^verbatim>\<open>null\<close> or \<^verbatim>\<open>undefined\<close> and on a
  call of something that is not a function.\<close>

datatype fault = CrossSeedError string | TypeError

fun truthy :: "jsval \<Rightarrow> bool" where
  "truthy JUndefined = False"
| "truthy JNull = False"
| "truthy (JBool b) = b"
| "truthy (JNum n) = (n \<noteq> 0)"
| "truthy (JStr s) = (s \<noteq> [])"
| "truthy (JArr xs) = True"
| "truthy (JObj kvs) = True"

text \<open>Decimal numerals, for array indices as member names and for \<^verbatim>\<open>String(n)\<close>.\<close>

fun show_nat :: "nat \<Rightarrow> string" where
  "show_nat n =
     (if n < 10 then [''0123456789'' ! n]
      else show_nat (n div 10) @ [''0123456789'' ! (n mod 10)])"

declare show_nat.simps [simp del]

definition show_int :: "int \<Rightarrow> string" where
  "show_int i = (if i < 0 then CHR ''-'' # show_nat (nat (- i)) else show_nat (nat i))"

definition index_of_key :: "string \<Rightarrow> nat \<Rightarrow> nat option" where
  "index_of_key k n = find (\<lambda>i. show_nat i = k) [0..<n]"

text \<open>
  The member read \<^verbatim>\<open>v[k]\<close>. On \<^verbatim>\<open>null\<close> and \<^verbatim>\<open>undefined\<close> it throws; on an object it is the
  own member or \<^verbatim>\<open>undefined\<close>; on an array and on a string it is \<^verbatim>\<open>length\<close> or the element
  at an index. Members inherited from the built-in prototypes (methods such as
  \<^verbatim>\<open>constructor\<close>) are not modelled: the keys the code reads are \<^verbatim>\<open>result\<close>, \<^verbatim>\<open>error\<close>,
  \<^verbatim>\<open>message\<close>, \<^verbatim>\<open>torrents\<close>, \<^verbatim>\<open>state\<close> and an info hash.
\<close>

fun get_prop :: "jsval \<Rightarrow> string \<Rightarrow> fault + jsval" where
  "get_prop JUndefined k = Inl TypeError"
| "get_prop JNull k = Inl TypeError"
| "get_prop (JBool b) k = Inr JUndefined"
| "get_prop (JNum n) k = Inr JUndefined"
| "get_prop (JStr s) k =
     Inr (if k = ''length'' then JNum (int (length s))
          else case index_of_key k (length s) of
                 None \<Rightarrow> JUndefined
               | Some i \<Rightarrow> JStr [s ! i])"
| "get_prop (JArr xs) k =
     Inr (if k = ''length'' then JNum (int (length xs))
          else case index_of_key k (length xs) of
                 None \<Rightarrow> JUndefined
               | Some i \<Rightarrow> xs ! i)"
| "get_prop (JObj kvs) k =
     Inr (case map_of kvs k of None \<Rightarrow> JUndefined | Some v \<Rightarrow> v)"

text \<open>A chain of member reads \<^verbatim>\<open>v[k1][k2]...\<close>, left to right; the first throw ends it.\<close>

fun get_path :: "jsval \<Rightarrow> string list \<Rightarrow> fault + jsval" where
  "get_path v [] = Inr v"
| "get_path v (k # ks) =
     (case get_prop v k of Inl e \<Rightarrow> Inl e | Inr w \<Rightarrow> get_path w ks)"

fun starts_with :: "string \<Rightarrow> string \<Rightarrow> bool" where
  "starts_with s [] = True"
| "starts_with [] (c # t) = False"
| "starts_with (a # s) (c # t) = (a = c \<and> starts_with s t)"

fun string_includes :: "string \<Rightarrow> string \<Rightarrow> bool" where
  "string_includes [] t = (t = [])"
| "string_includes (a # s) t = (starts_with (a # s) t \<or> string_includes s t)"

text \<open>
  The method call \<^verbatim>\<open>v.includes(t)\<close> with a string argument: substring search on a
  string, membership on an array, and a \<^verbatim>\<open>TypeError\<close> on every other value, which has
  no function of that name.
\<close>

fun js_includes :: "jsval \<Rightarrow> string \<Rightarrow> fault + bool" where
  "js_includes (JStr s) t = Inr (string_includes s t)"
| "js_includes (JArr xs) t = Inr (JStr t \<in> set xs)"
| "js_includes v t = Inl TypeError"

fun join_comma :: "string list \<Rightarrow> string" where
  "join_comma [] = []"
| "join_comma [s] = s"
| "join_comma (s # t # ss) = s @ '','' @ join_comma (t # ss)"

text \<open>\<^verbatim>\<open>String(v)\<close>; an array joins its elements with commas, \<^verbatim>\<open>null\<close> and \<^verbatim>\<open>undefined\<close>
  elements as empty strings.\<close>

fun js_toString :: "jsval \<Rightarrow> string" where
  "js_toString JUndefined = ''undefined''"
| "js_toString JNull = ''null''"
| "js_toString (JBool b) = (if b then ''true'' else ''false'')"
| "js_toString (JNum n) = show_int n"
| "js_toString (JStr s) = s"
| "js_toString (JArr xs) =
     join_comma (map (\<lambda>x. if x = JUndefined \<or> x = JNull then [] else js_toString x) xs)"
| "js_toString (JObj kvs) = ''[object Object]''"

text \<open>
  The loose comparison \<^verbatim>\<open>v == w\<close> with a string \<open>w\<close> that is not a numeral (the code
  compares with \<^verbatim>\<open>"Seeding"\<close>): a string compares by value, an array or an object by its
  string form, and a number, a boolean, \<^verbatim>\<open>null\<close> and \<^verbatim>\<open>undefined\<close> are never equal to it.
\<close>

fun loose_eq_word :: "jsval \<Rightarrow> string \<Rightarrow> bool" where
  "loose_eq_word (JStr s) w = (s = w)"
| "loose_eq_word (JArr xs) w = (js_toString (JArr xs) = w)"
| "loose_eq_word (JObj kvs) w = (js_toString (JObj kvs) = w)"
| "loose_eq_word v w = False"

section \<open>The Deluge client (Deluge.ts)\<close>

text \<open>
  Modelled from the spec: the enumeration \<^verbatim>\<open>InjectionResult\<close> of \<^verbatim>\<open>constants.js\<close>, which
  is not among the sources; the spec lists its four values.
\<close>

datatype InjectionResult = SUCCESS | ALREADY_EXISTS | TORRENT_NOT_COMPLETE | FAILURE

text \<open>What \<^verbatim>\<open>inject\<close> reads of a \<^verbatim>\<open>Metafile\<close>: its \<^verbatim>\<open>name\<close>, its \<^verbatim>\<open>infoHash\<close> and
  \<^verbatim>\<open>encode().toString("base64")\<close>, the output of the encoder.\<close>

record metafile =
  metafile_name :: string
  metafile_infoHash :: string
  metafile_base64 :: string

text \<open>
  One \<^verbatim>\<open>axios.post\<close>: the address, the \<^verbatim>\<open>Cookie\<close> header and the body
  \<^verbatim>\<open>{params, method, id}\<close>. Of the response the code reads \<^verbatim>\<open>headers["set-cookie"]\<close> (the
  list of the header's values, empty when the header is absent) and \<^verbatim>\<open>data\<close>.
\<close>

record request =
  req_url :: string
  req_cookie :: string
  req_id :: int
  req_method :: string
  req_params :: "jsval list"

record response =
  set_cookie :: "string list"
  data :: jsval

text \<open>
  The client at the other end: what it answers to a request, given the requests posted
  before it. \<open>None\<close> is a post that fails, which \<^verbatim>\<open>call\<close> turns into \<^verbatim>\<open>null\<close>.
\<close>

type_synonym server = "request list \<Rightarrow> request \<Rightarrow> response option"

text \<open>
  The fields of the class. \<open>enLabeled\<close> holds a promise once \<^verbatim>\<open>validateConfig\<close> has
  assigned it (\<open>None\<close> before): \<open>Inr b\<close> a promise fulfilled with \<open>b\<close>, \<open>Inl e\<close> a rejected
  one. The last two are not fields of the class. \<open>posted\<close> records the requests posted so
  far, in order. \<open>unhandled\<close> records the unhandled promise rejections so far: the faults
  of the promises that the code starts and neither awaits nor catches, which no caller
  ever receives and which the runtime reports as \<^verbatim>\<open>unhandledRejection\<close> (by default it
  ends the process on one).
\<close>

record deluge =
  msgId :: int
  loggedIn :: bool
  delugeCookie :: string
  delugeWebUrl :: url
  delugeLabel :: string
  enLabeled :: "(fault + bool) option"
  posted :: "request list"
  unhandled :: "fault list"

text \<open>
  An \<^verbatim>\<open>async\<close> method takes the state of the object and returns the updated state with
  either the value it resolves to (\<open>Inr\<close>) or the fault it rejects with (\<open>Inl\<close>). Every
  \<^verbatim>\<open>await\<close> is sequential composition.
\<close>

type_synonym 'a outcome = "(fault + 'a) \<times> deluge"

text \<open>What a promise that nothing awaits or catches adds to the unhandled rejections:
  its fault when it rejects, nothing when it is fulfilled.\<close>

definition rejection :: "fault + 'a \<Rightarrow> fault list" where
  "rejection settled = (case settled of Inl e \<Rightarrow> [e] | Inr v \<Rightarrow> [])"

definition new_Deluge :: "runtime_config \<Rightarrow> deluge" where
  "new_Deluge cfg =
     \<lparr>msgId = 0, loggedIn = False, delugeCookie = [],
      delugeWebUrl = config_delugeWebUrl cfg, delugeLabel = dataCategory cfg,
      enLabeled = None, posted = [], unhandled = []\<rparr>"

text \<open>\<^verbatim>\<open>call\<close>: number the body, wrap the counter after 1024, post, and resolve to the
  response or to \<^verbatim>\<open>null\<close>. It never rejects.\<close>

definition call :: "server \<Rightarrow> string \<Rightarrow> jsval list \<Rightarrow> deluge \<Rightarrow> response option \<times> deluge" where
  "call srv method params s =
     (let body_id = msgId s + 1;
          s1 = s\<lparr>msgId := (if body_id > 1024 then 0 else body_id)\<rparr>;
          req = \<lparr>req_url = origin (delugeWebUrl s1) @ pathname (delugeWebUrl s1),
                 req_cookie = delugeCookie s1,
                 req_id = body_id, req_method = method, req_params = params\<rparr>
      in (srv (posted s1) req, s1\<lparr>posted := posted s1 @ [req]\<rparr>))"

text \<open>\<^verbatim>\<open>authenticate\<close>: log in when not logged in, probe the session otherwise.
  \<^verbatim>\<open>response.headers\<close> is an object, hence truthy.\<close>

definition authenticate :: "server \<Rightarrow> deluge \<Rightarrow> bool outcome" where
  "authenticate srv s =
     (if \<not> loggedIn s then
        (case call srv ''auth.login'' [JStr (password (delugeWebUrl s))] s of
           (None, s1) \<Rightarrow>
             (Inl (CrossSeedError (''Could not reach deluge: '' @ origin (delugeWebUrl s1))), s1)
         | (Some response, s1) \<Rightarrow>
             (case get_prop (data response) ''result'' of
                Inl e \<Rightarrow> (Inl e, s1)
              | Inr result \<Rightarrow>
                  if truthy result \<and> set_cookie response \<noteq> []
                  then (let s2 = s1\<lparr>delugeCookie :=
                                       takeWhile (\<lambda>c. c \<noteq> CHR '';'') (hd (set_cookie response)),
                                     loggedIn := True\<rparr>
                        in (Inr (loggedIn s2), s2))
                  else (Inr (loggedIn s1), s1)))
      else
        (case call srv ''auth.check_session'' [JStr (delugeCookie s)] s of
           (response, s1) \<Rightarrow>
             (let s2 = s1\<lparr>loggedIn := (response \<noteq> None)\<rparr> in (Inr (loggedIn s2), s2))))"

text \<open>The value \<^verbatim>\<open>sendCall\<close> returns for a response:
  \<^verbatim>\<open>response && response.data && response.data.error === null ? response.data : response.data.error\<close>.\<close>

definition reply_value :: "response option \<Rightarrow> fault + jsval" where
  "reply_value response =
     (case response of
        None \<Rightarrow> Inl TypeError
      | Some r \<Rightarrow>
          if truthy (data r) \<and> get_prop (data r) ''error'' = Inr JNull
          then Inr (data r)
          else get_prop (data r) ''error'')"

definition sendCall :: "server \<Rightarrow> string \<Rightarrow> jsval list \<Rightarrow> deluge \<Rightarrow> jsval outcome" where
  "sendCall srv method params s =
     (if \<not> loggedIn s then
        (case authenticate srv s of
           (Inl e, s1) \<Rightarrow> (Inl e, s1)
         | (Inr b, s1) \<Rightarrow>
             (case call srv method params s1 of
                (response, s2) \<Rightarrow> (reply_value response, s2)))
      else
        (case call srv method params s of
           (response, s2) \<Rightarrow> (reply_value response, s2)))"

definition labelEnabled :: "server \<Rightarrow> deluge \<Rightarrow> bool outcome" where
  "labelEnabled srv s =
     (case sendCall srv ''core.get_enabled_plugins'' [] s of
        (Inl e, s1) \<Rightarrow> (Inl e, s1)
      | (Inr enabledLabels, s1) \<Rightarrow>
          (case get_prop enabledLabels ''result'' of
             Inl e \<Rightarrow> (Inl e, s1)
           | Inr plugins \<Rightarrow>
               (case js_includes plugins ''Label'' of
                  Inl e \<Rightarrow> (Inl e, s1)
                | Inr b \<Rightarrow> (Inr b, s1))))"

text \<open>
  \<^verbatim>\<open>validateConfig\<close>. The promise of \<^verbatim>\<open>labelEnabled()\<close> is stored without being awaited;
  the model runs it to its end at that point and stores how it settled. Nothing ever
  awaits or catches the stored promise, so its rejection is an unhandled one.
\<close>

definition validateConfig :: "server \<Rightarrow> deluge \<Rightarrow> unit outcome" where
  "validateConfig srv s =
     (if username (delugeWebUrl s) \<noteq> [] \<and> password (delugeWebUrl s) = []
      then (Inl (CrossSeedError
        ''you need to define a password in the delugeWebUrl. (eg: http://:<PASSWORD>@localhost:8112)''), s)
      else
        (case authenticate srv s of
           (Inl e, s1) \<Rightarrow> (Inl e, s1)
         | (Inr result, s1) \<Rightarrow>
             if \<not> result
             then (Inl (CrossSeedError ''failed to authenticate the deluge daemon.''), s1)
             else (case labelEnabled srv s1 of
                     (promise, s2) \<Rightarrow>
                       (Inr (), s2\<lparr>enLabeled := Some promise,
                                   unhandled := unhandled s2 @ rejection promise\<rparr>))))"

text \<open>
  \<^verbatim>\<open>setLabel\<close>. The test \<^verbatim>\<open>if (this.enLabeled)\<close> is on the field itself: a promise is an
  object, hence truthy however it settled, and only the unassigned field is falsy.
\<close>

definition setLabel :: "server \<Rightarrow> string \<Rightarrow> deluge \<Rightarrow> bool outcome" where
  "setLabel srv torrenthash s =
     (if enLabeled s \<noteq> None then
        (case sendCall srv ''label.set_torrent'' [JStr torrenthash, JStr (delugeLabel s)] s of
           (Inl e, s1) \<Rightarrow> (Inl e, s1)
         | (Inr setResult, s1) \<Rightarrow>
             (case get_prop setResult ''message'' of
                Inl e \<Rightarrow> (Inl e, s1)
              | Inr message \<Rightarrow>
                  if \<not> truthy message then (Inr True, s1)
                  else
                    (case js_includes message ''Unknown Label'' of
                       Inl e \<Rightarrow> (Inl e, s1)
                     | Inr unknown \<Rightarrow>
                         if \<not> unknown then (Inr True, s1)
                         else
                           (case sendCall srv ''label.add'' [JStr (delugeLabel s1)] s1 of
                              (Inl e, s2) \<Rightarrow> (Inl e, s2)
                            | (Inr added, s2) \<Rightarrow>
                                (case sendCall srv ''label.set_torrent''
                                        [JStr torrenthash, JStr (delugeLabel s2)] s2 of
                                   (Inl e, s3) \<Rightarrow> (Inl e, s3)
                                 | (Inr retried, s3) \<Rightarrow> (Inr True, s3))))))
      else (Inr False, s))"

definition formatData :: "runtime_config \<Rightarrow> string \<Rightarrow> string \<Rightarrow> string option \<Rightarrow> jsval list" where
  "formatData cfg filename filedump download_location =
     [JStr filename,
      JStr filedump,
      JObj [(''file_priorities'', JArr []),
            (''add_paused'', JBool False),
            (''seed_mode'', JBool (skipRecheck cfg)),
            (''compact_allocation'', JBool True),
            (''download_location'',
               (case download_location of None \<Rightarrow> JUndefined | Some p \<Rightarrow> JStr p)),
            (''max_connections'', JNum (- 1)),
            (''max_download_speed'', JNum (- 1)),
            (''max_upload_slots'', JNum (- 1)),
            (''max_upload_speed'', JNum (- 1)),
            (''prioritize_first_last_pieces'', JBool False)]]"

text \<open>\<^verbatim>\<open>response["result"]["torrents"][infohash]["state"]\<close>.\<close>

definition torrent_state :: "jsval \<Rightarrow> string \<Rightarrow> fault + jsval" where
  "torrent_state response infohash =
     get_path response [''result'', ''torrents'', infohash, ''state'']"

text \<open>
  \<^verbatim>\<open>checkCompleted\<close>. It returns \<^verbatim>\<open>true\<close> (\<open>Some True\<close>), \<^verbatim>\<open>false\<close> (\<open>Some False\<close>) or, when
  the \<^verbatim>\<open>try\<close> block ends without a \<^verbatim>\<open>return\<close>, \<^verbatim>\<open>undefined\<close> (\<open>None\<close>). The inner case is
  the \<^verbatim>\<open>try\<close> block, in which \<open>response'\<close> is the block's own \<^verbatim>\<open>let response\<close>. The outer
  \<open>Inl\<close> branch is the \<^verbatim>\<open>catch\<close> block: its log message reads the state from the
  \<^verbatim>\<open>response\<close> declared before the \<^verbatim>\<open>try\<close>, which is never assigned.
\<close>

definition checkCompleted :: "server \<Rightarrow> string \<Rightarrow> deluge \<Rightarrow> bool option outcome" where
  "checkCompleted srv infohash s =
     (let params = [JArr [JStr ''name'', JStr ''state'', JStr ''save_path''], JArr []];
          response = JUndefined
      in case (case sendCall srv ''web.update_ui'' params s of
                 (Inl e, s1) \<Rightarrow> (Inl e, s1)
               | (Inr response', s1) \<Rightarrow>
                   (case torrent_state response' infohash of
                      Inl e \<Rightarrow> (Inl e, s1)
                    | Inr state \<Rightarrow>
                        if loose_eq_word state ''Seeding'' then (Inr (Some True), s1)
                        else (Inr None, s1))) of
           (Inr returned, s1) \<Rightarrow> (Inr returned, s1)
         | (Inl e, s1) \<Rightarrow>
             (case torrent_state response infohash of
                Inl e' \<Rightarrow> (Inl e', s1)
              | Inr state \<Rightarrow> (Inr (Some False), s1)))"

text \<open>
  \<^verbatim>\<open>inject\<close>. The outer case is the condition
  \<^verbatim>\<open>searchee.infoHash && !(await this.checkCompleted(searchee.infoHash))\<close>. The call
  \<^verbatim>\<open>this.setLabel(newTorrent.infoHash)\<close> is neither awaited nor caught. The value
  \<^verbatim>\<open>inject\<close> returns does not depend on how that promise settles, but a fault of it is an
  unhandled rejection, and the model records it as one. The model runs the call to its
  end at that point, which is one of the orders in which the runtime may run it: its
  first request is posted before \<^verbatim>\<open>inject\<close> returns, the later ones may in the program
  fall between the requests of whatever the caller does next.
\<close>

definition inject ::
  "runtime_config \<Rightarrow> server \<Rightarrow> metafile \<Rightarrow> searchee \<Rightarrow> string option \<Rightarrow> deluge
     \<Rightarrow> InjectionResult outcome" where
  "inject cfg srv newTorrent searchee download_location s =
     (case (if truthy_opt_string (infoHash searchee)
            then (case checkCompleted srv (the (infoHash searchee)) s of
                    (Inl e, s1) \<Rightarrow> (Inl e, s1)
                  | (Inr completed, s1) \<Rightarrow> (Inr (completed \<noteq> Some True), s1))
            else (Inr False, s)) of
        (Inl e, s1) \<Rightarrow> (Inl e, s1)
      | (Inr not_complete, s1) \<Rightarrow>
          if not_complete then (Inr TORRENT_NOT_COMPLETE, s1)
          else
            (let params = formatData cfg (metafile_name newTorrent @ ''.cross-seed.torrent'')
                            (metafile_base64 newTorrent) download_location
             in case sendCall srv ''core.add_torrent_file'' params s1 of
                  (Inl e, s2) \<Rightarrow> (Inl e, s2)
                | (Inr addResult, s2) \<Rightarrow>
                    (case get_prop addResult ''result'' of
                       Inl e \<Rightarrow> (Inl e, s2)
                     | Inr result \<Rightarrow>
                         if truthy result
                         then (case setLabel srv (metafile_infoHash newTorrent) s2 of
                                 (floating, s3) \<Rightarrow>
                                   (Inr SUCCESS,
                                    s3\<lparr>unhandled := unhandled s3 @ rejection floating\<rparr>))
                         else
                           (case get_prop addResult ''message'' of
                              Inl e \<Rightarrow> (Inl e, s2)
                            | Inr message \<Rightarrow>
                                if \<not> truthy message then (Inr FAILURE, s2)
                                else
                                  (case js_includes message ''already'' of
                                     Inl e \<Rightarrow> (Inl e, s2)
                                   | Inr already \<Rightarrow>
                                       if already then (Inr ALREADY_EXISTS, s2)
                                       else (Inr FAILURE, s2))))))"

section \<open>Traces and the behaviour of the client at the other end\<close>

text \<open>The requests posted between two states of the object.\<close>

definition new_posts :: "deluge \<Rightarrow> deluge \<Rightarrow> request list" where
  "new_posts s s' = drop (length (posted s)) (posted s')"

text \<open>The client answers every request, with a body that is neither \<^verbatim>\<open>null\<close> nor
  missing.\<close>

definition responsive :: "server \<Rightarrow> bool" where
  "responsive srv = (\<forall>h req. \<exists>r. srv h req = Some r \<and> data r \<noteq> JNull \<and> data r \<noteq> JUndefined)"

text \<open>The client answers every request of method \<open>m\<close>, with a body that is neither
  \<^verbatim>\<open>null\<close> nor missing.\<close>

definition answers :: "server \<Rightarrow> string \<Rightarrow> bool" where
  "answers srv m =
     (\<forall>h req. req_method req = m \<longrightarrow>
        (\<exists>r. srv h req = Some r \<and> data r \<noteq> JNull \<and> data r \<noteq> JUndefined))"

text \<open>A call can get through: the session is authenticated, or the client answers a
  login.\<close>

definition can_log_in :: "server \<Rightarrow> deluge \<Rightarrow> bool" where
  "can_log_in srv s = (loggedIn s \<or> answers srv ''auth.login'')"

text \<open>A body that reports success: \<^verbatim>\<open>error\<close> is \<^verbatim>\<open>null\<close> and \<^verbatim>\<open>result\<close> is truthy.\<close>

definition accepts :: "jsval \<Rightarrow> bool" where
  "accepts d =
     (truthy d \<and> get_prop d ''error'' = Inr JNull \<and>
      (case get_prop d ''result'' of Inl x \<Rightarrow> False | Inr v \<Rightarrow> truthy v))"

text \<open>A body that carries an error whose message contains \<open>w\<close>.\<close>

definition error_with :: "string \<Rightarrow> jsval \<Rightarrow> bool" where
  "error_with w d =
     (case get_prop d ''error'' of
        Inl x \<Rightarrow> False
      | Inr e \<Rightarrow>
          e \<noteq> JNull \<and>
          (case get_prop e ''message'' of
             Inl x \<Rightarrow> False
           | Inr m \<Rightarrow> truthy m \<and> js_includes m w = Inr True))"

text \<open>The same, the error carrying no truthy \<^verbatim>\<open>result\<close> of its own.\<close>

definition refuses_with :: "string \<Rightarrow> jsval \<Rightarrow> bool" where
  "refuses_with w d =
     (error_with w d \<and>
      (case get_prop d ''error'' of
         Inl x \<Rightarrow> False
       | Inr e \<Rightarrow> (case get_prop e ''result'' of Inl x \<Rightarrow> False | Inr v \<Rightarrow> \<not> truthy v)))"

text \<open>A status body without error that lists the state \<open>st\<close> for the torrent.\<close>

definition reports_state :: "jsval \<Rightarrow> string \<Rightarrow> jsval \<Rightarrow> bool" where
  "reports_state d infohash st =
     (truthy d \<and> get_prop d ''error'' = Inr JNull \<and> torrent_state d infohash = Inr st)"

text \<open>
  The client accepts the submission \<open>params\<close> when it has not been submitted before, and
  answers a repeated submission with an error message that contains "already".
\<close>

definition submitted :: "jsval list \<Rightarrow> request list \<Rightarrow> bool" where
  "submitted params h =
     (\<exists>x \<in> set h. req_method x = ''core.add_torrent_file'' \<and> req_params x = params)"

definition accepts_once :: "server \<Rightarrow> jsval list \<Rightarrow> bool" where
  "accepts_once srv params =
     (\<forall>h req. req_method req = ''core.add_torrent_file'' \<and> req_params req = params \<longrightarrow>
        (\<exists>r. srv h req = Some r \<and>
             (if submitted params h then refuses_with ''already'' (data r)
              else accepts (data r))))"

text \<open>The client reports the torrent as seeding whenever it is asked for the status.\<close>

definition reports_seeding :: "server \<Rightarrow> string \<Rightarrow> bool" where
  "reports_seeding srv infohash =
     (\<forall>h req. req_method req = ''web.update_ui'' \<longrightarrow>
        (\<exists>r st. srv h req = Some r \<and> reports_state (data r) infohash st \<and>
                 loose_eq_word st ''Seeding''))"

text \<open>The client reports a state of the torrent that is not "Seeding".\<close>

definition reports_unfinished :: "server \<Rightarrow> string \<Rightarrow> bool" where
  "reports_unfinished srv infohash =
     (\<forall>h req. req_method req = ''web.update_ui'' \<longrightarrow>
        (\<exists>r st. srv h req = Some r \<and> reports_state (data r) infohash st \<and>
                 \<not> loose_eq_word st ''Seeding''))"

text \<open>The client lists some state of the torrent in its status.\<close>

definition lists_state :: "server \<Rightarrow> string \<Rightarrow> bool" where
  "lists_state srv infohash =
     (\<forall>h req. req_method req = ''web.update_ui'' \<longrightarrow>
        (\<exists>r st. srv h req = Some r \<and> reports_state (data r) infohash st))"

text \<open>
  After the requests \<open>h0\<close>, the client answers a label-set with "Unknown Label" as long
  as no label has been created since.
\<close>

definition unknown_until_added :: "server \<Rightarrow> request list \<Rightarrow> bool" where
  "unknown_until_added srv h0 =
     (\<forall>ext req. req_method req = ''label.set_torrent'' \<and>
                (\<forall>x \<in> set ext. req_method x \<noteq> ''label.add'') \<longrightarrow>
        (\<exists>r. srv (h0 @ ext) req = Some r \<and> error_with ''Unknown Label'' (data r)))"

text \<open>
  A JSON-RPC body: an object whose \<^verbatim>\<open>error\<close> is \<^verbatim>\<open>null\<close> or an error object, the
  \<^verbatim>\<open>message\<close> of the value that \<^verbatim>\<open>sendCall\<close> hands on being a string when there is one.
\<close>

definition message_ok :: "jsval \<Rightarrow> bool" where
  "message_ok v =
     (case get_prop v ''message'' of
        Inr (JStr m) \<Rightarrow> True
      | Inr JUndefined \<Rightarrow> True
      | Inr JNull \<Rightarrow> True
      | _ \<Rightarrow> False)"

definition jsonrpc_body :: "jsval \<Rightarrow> bool" where
  "jsonrpc_body d =
     (case d of
        JObj kvs \<Rightarrow>
          (case map_of kvs ''error'' of
             Some JNull \<Rightarrow> message_ok d
           | Some (JObj e) \<Rightarrow> message_ok (JObj e)
           | _ \<Rightarrow> False)
      | _ \<Rightarrow> False)"

definition jsonrpc_client :: "server \<Rightarrow> bool" where
  "jsonrpc_client srv = (\<forall>h req. \<exists>r. srv h req = Some r \<and> jsonrpc_body (data r))"

section \<open>A simulated client and example data\<close>

definition rpc_result :: "int \<Rightarrow> jsval \<Rightarrow> response option" where
  "rpc_result i v =
     Some \<lparr>set_cookie = [], data = JObj [(''result'', v), (''error'', JNull), (''id'', JNum i)]\<rparr>"

definition rpc_error :: "int \<Rightarrow> string \<Rightarrow> response option" where
  "rpc_error i msg =
     Some \<lparr>set_cookie = [],
           data = JObj [(''result'', JNull),
                        (''error'', JObj [(''message'', JStr msg), (''code'', JNum 4)]),
                        (''id'', JNum i)]\<rparr>"

text \<open>
  A client that behaves as the Deluge web interface does, with the enabled plugins and
  the torrent table given: it accepts every login, accepts a torrent once and refuses it
  afterwards, knows the label methods only when the plugin "Label" is enabled, and then
  knows the label only after it has been added.
\<close>

definition deluge_sim :: "jsval \<Rightarrow> jsval \<Rightarrow> server" where
  "deluge_sim plugins torrents h req =
     (if req_method req = ''auth.login'' then
        Some \<lparr>set_cookie = [''_session_id=5f2c; Expires=Fri; Path=/json''],
              data = JObj [(''result'', JBool True), (''error'', JNull),
                           (''id'', JNum (req_id req))]\<rparr>
      else if req_method req = ''auth.check_session'' then rpc_result (req_id req) (JBool True)
      else if req_method req = ''core.get_enabled_plugins'' then rpc_result (req_id req) plugins
      else if req_method req = ''web.update_ui'' then
        rpc_result (req_id req) (JObj [(''torrents'', torrents)])
      else if req_method req = ''core.add_torrent_file'' then
        (if submitted (req_params req) h
         then rpc_error (req_id req) ''Torrent already in session''
         else rpc_result (req_id req) (JStr ''c0ffee''))
      else if req_method req = ''label.set_torrent'' \<and> js_includes plugins ''Label'' = Inr True
      then
        (if \<exists>x \<in> set h. req_method x = ''label.add''
         then rpc_result (req_id req) JNull
         else rpc_error (req_id req) ''Unknown Label'')
      else if req_method req = ''label.add'' \<and> js_includes plugins ''Label'' = Inr True
      then rpc_result (req_id req) JNull
      else rpc_error (req_id req) ''Unknown method'')"

text \<open>The same client, except that it never gets to know the label.\<close>

definition label_never_known :: "server \<Rightarrow> server" where
  "label_never_known srv h req =
     (if req_method req = ''label.set_torrent'' then rpc_error (req_id req) ''Unknown Label''
      else srv h req)"

text \<open>The same client, except that every post of a label request fails: the request
  gets no response.\<close>

definition label_no_reply :: "server \<Rightarrow> server" where
  "label_no_reply srv h req =
     (if req_method req = ''label.set_torrent'' \<or> req_method req = ''label.add'' then None
      else srv h req)"

text \<open>A client that cannot be reached: every post fails.\<close>

definition no_reply :: server where
  "no_reply h req = None"

definition example_config :: runtime_config where
  "example_config =
     \<lparr>excludeOlder = Some 86400000, excludeRecentSearch = Some 3600000,
      config_delugeWebUrl = \<lparr>origin = ''http://localhost:8112'', pathname = ''/json'',
                              username = [], password = ''deluge''\<rparr>,
      dataCategory = ''cross-seed'', skipRecheck = True\<rparr>"

definition example_torrents :: "string \<Rightarrow> jsval" where
  "example_torrents st =
     JObj [(''abc123'', JObj [(''name'', JStr ''show''), (''state'', JStr st),
                              (''save_path'', JStr ''/d'')])]"

definition example_metafile :: metafile where
  "example_metafile =
     \<lparr>metafile_name = ''show'', metafile_infoHash = ''c0ffee'', metafile_base64 = ''ZDg6''\<rparr>"

definition example_searchee :: "string option \<Rightarrow> searchee" where
  "example_searchee h =
     \<lparr>name = ''show'', files = [\<lparr>file_name = ''e.mkv'', file_length = 7\<rparr>],
      path = None, infoHash = h\<rparr>"

text \<open>The object after \<^verbatim>\<open>validateConfig\<close> has logged in and found the plugin list
  \<open>plugins\<close>: the state in which \<^verbatim>\<open>inject\<close> is called.\<close>

definition example_session :: "jsval \<Rightarrow> deluge" where
  "example_session plugins =
     snd (validateConfig (deluge_sim plugins (example_torrents ''Seeding''))
            (new_Deluge example_config))"

section \<open>The duplicate resolver: proofs\<close>

lemma map_get_eq_map_of: "map_get m k = map_of m k"
  by (induction m k rule: map_get.induct) auto

lemma map_of_map_set: "map_of (map_set m k v) = (map_of m)(k \<mapsto> v)"
  by (induction m k v rule: map_set.induct) (auto simp: fun_eq_iff)

lemma fst_set_map_set: "fst ` set (map_set m k v) = insert k (fst ` set m)"
  by (induction m k v rule: map_set.induct) auto

lemma distinct_map_set: "distinct (map fst m) \<Longrightarrow> distinct (map fst (map_set m k v))"
proof (induction m)
  case Nil
  then show ?case by simp
next
  case (Cons p m)
  obtain k' v' where p: "p = (k', v')" by (cases p)
  from Cons show ?case
    using fst_set_map_set [of m k v] by (auto simp: p)
qed

lemma set_map_set: "set (map_set m k v) \<subseteq> insert (k, v) (set m)"
  by (induction m k v rule: map_set.induct) auto

lemma keyed_by_name_map_set:
  "keyed_by_name m \<Longrightarrow> name v = k \<Longrightarrow> keyed_by_name (map_set m k v)"
  unfolding keyed_by_name_def
  using set_map_set [of m k v] by (auto simp: distinct_map_set)

lemma keyed_by_name_step: "keyed_by_name m \<Longrightarrow> keyed_by_name (dupes_step m cur)"
  by (auto simp: dupes_step_def keyed_by_name_map_set split: option.splits)

lemma keyed_by_name_foldl: "keyed_by_name m \<Longrightarrow> keyed_by_name (foldl dupes_step m xs)"
  by (induction xs arbitrary: m) (auto simp: keyed_by_name_step)

lemma map_of_dupes_step:
  "map_of (dupes_step m cur) n =
     (if name cur = n then Some (resolve (map_of m n) cur) else map_of m n)"
  by (auto simp: dupes_step_def resolve_def map_get_eq_map_of map_of_map_set
      split: option.splits)

lemma map_of_foldl_dupes_step:
  "map_of (foldl dupes_step m xs) n =
     foldl (\<lambda>old cur. Some (resolve old cur)) (map_of m n) (filter (\<lambda>s. name s = n) xs)"
  by (induction xs arbitrary: m) (auto simp: map_of_dupes_step)

lemma filter_name_keyed:
  "keyed_by_name m \<Longrightarrow>
     filter (\<lambda>s. name s = n) (map snd m) = (case map_of m n of None \<Rightarrow> [] | Some v \<Rightarrow> [v])"
proof (induction m)
  case Nil
  then show ?case by simp
next
  case (Cons p m)
  obtain k v where p: "p = (k, v)" by (cases p)
  from Cons.prems have km: "keyed_by_name m" and nv: "name v = k" and kn: "k \<notin> fst ` set m"
    by (auto simp: keyed_by_name_def p)
  show ?case
  proof (cases "k = n")
    case True
    with kn have "map_of m n = None" by (simp add: map_of_eq_None_iff)
    with Cons.IH [OF km] True nv show ?thesis by (simp add: p)
  next
    case False
    with Cons.IH [OF km] nv show ?thesis by (simp add: p)
  qed
qed

text \<open>
  C9. Whenever exactly two searchees of the input share a name \<open>n\<close> (\<open>a\<close> the one that comes
  first, \<open>b\<close> the other; the input may hold searchees of other names around them) and
  exactly one of the two carries an \<^verbatim>\<open>infoHash\<close>, the output of \<open>filterDupes\<close> holds exactly
  one searchee named \<open>n\<close>, and it is the one that carries the \<^verbatim>\<open>infoHash\<close>: \<open>a\<close> when \<open>a\<close> has
  it, \<open>b\<close> when \<open>b\<close> has it, so either arrival order gives the same survivor.
\<close>

theorem filterDupes_prefers_infoHash:
  assumes two: "filter (\<lambda>s. name s = n) searchees = [a, b]"
    and one: "truthy_opt_string (infoHash a) \<noteq> truthy_opt_string (infoHash b)"
  shows "filter (\<lambda>s. name s = n) (filterDupes searchees)
           = [if truthy_opt_string (infoHash a) then a else b]"
proof -
  have inv: "keyed_by_name (foldl dupes_step [] searchees)"
    by (rule keyed_by_name_foldl) (simp add: keyed_by_name_def)
  have "map_of (foldl dupes_step [] searchees) n = Some (resolve (Some a) b)"
    by (simp add: map_of_foldl_dupes_step two resolve_def)
  moreover have "resolve (Some a) b = (if truthy_opt_string (infoHash a) then a else b)"
    using one by (auto simp: resolve_def)
  ultimately show ?thesis
    using filter_name_keyed [OF inv, of n] by (simp add: filterDupes_def map_values_def)
qed

text \<open>The two arrival orders, with a searchee of another name between the two.\<close>

theorem filterDupes_prefers_infoHash_witness:
  "(let f = \<lparr>file_name = ''e.mkv'', file_length = 7\<rparr>;
        bare = \<lparr>name = ''show'', files = [f], path = None, infoHash = None\<rparr>;
        other = \<lparr>name = ''film'', files = [f], path = None, infoHash = None\<rparr>;
        hashed = \<lparr>name = ''show'', files = [f], path = Some ''/d/e.mkv'', infoHash = Some ''c0ffee''\<rparr>
    in filter (\<lambda>s. name s = ''show'') [bare, other, hashed] = [bare, hashed]
       \<and> truthy_opt_string (infoHash bare) \<noteq> truthy_opt_string (infoHash hashed)
       \<and> filter (\<lambda>s. name s = ''show'') (filterDupes [bare, other, hashed]) = [hashed]
       \<and> filter (\<lambda>s. name s = ''show'') [hashed, other, bare] = [hashed, bare]
       \<and> filter (\<lambda>s. name s = ''show'') (filterDupes [hashed, other, bare]) = [hashed])"
  using filterDupes_prefers_infoHash
    [of "''show''"
        "[\<lparr>name = ''show'', files = [\<lparr>file_name = ''e.mkv'', file_length = 7\<rparr>], path = None, infoHash = None\<rparr>,
          \<lparr>name = ''film'', files = [\<lparr>file_name = ''e.mkv'', file_length = 7\<rparr>], path = None, infoHash = None\<rparr>,
          \<lparr>name = ''show'', files = [\<lparr>file_name = ''e.mkv'', file_length = 7\<rparr>], path = Some ''/d/e.mkv'', infoHash = Some ''c0ffee''\<rparr>]"
        "\<lparr>name = ''show'', files = [\<lparr>file_name = ''e.mkv'', file_length = 7\<rparr>], path = None, infoHash = None\<rparr>"
        "\<lparr>name = ''show'', files = [\<lparr>file_name = ''e.mkv'', file_length = 7\<rparr>], path = Some ''/d/e.mkv'', infoHash = Some ''c0ffee''\<rparr>"]
    filterDupes_prefers_infoHash
    [of "''show''"
        "[\<lparr>name = ''show'', files = [\<lparr>file_name = ''e.mkv'', file_length = 7\<rparr>], path = Some ''/d/e.mkv'', infoHash = Some ''c0ffee''\<rparr>,
          \<lparr>name = ''film'', files = [\<lparr>file_name = ''e.mkv'', file_length = 7\<rparr>], path = None, infoHash = None\<rparr>,
          \<lparr>name = ''show'', files = [\<lparr>file_name = ''e.mkv'', file_length = 7\<rparr>], path = None, infoHash = None\<rparr>]"
        "\<lparr>name = ''show'', files = [\<lparr>file_name = ''e.mkv'', file_length = 7\<rparr>], path = Some ''/d/e.mkv'', infoHash = Some ''c0ffee''\<rparr>"
        "\<lparr>name = ''show'', files = [\<lparr>file_name = ''e.mkv'', file_length = 7\<rparr>], path = None, infoHash = None\<rparr>"]
  by (simp add: truthy_opt_string_def Let_def)

section \<open>The timestamp gate: proofs\<close>

lemma sql_min_Min: "sql_min vs = (if vs = [] then None else Some (Min (set vs)))"
  by (cases vs) (simp_all add: sql_min_def Min.set_eq_fold [symmetric])

lemma sql_min_const:
  assumes "\<forall>x \<in> set xs. f x = c"
  shows "sql_min (map f xs) = (if xs = [] then None else Some c)"
proof (cases "xs = []")
  case True
  then show ?thesis by (simp add: sql_min_def)
next
  case False
  then have "f ` set xs = {c}" using assms by (cases xs) auto
  with False show ?thesis by (simp add: sql_min_Min)
qed

lemma joined_rows_cases:
  assumes "(s, i, t) \<in> set (joined_rows db nm ids)"
  shows "s \<in> set (searchee_table db) \<and> searchee_name s = nm \<and> indexer_id i \<in> set ids \<and>
         (case t of None \<Rightarrow> True
          | Some row \<Rightarrow> row \<in> set (timestamp_table db) \<and> ts_indexer_id row = indexer_id i \<and>
                        ts_searchee_id row = searchee_id s)"
proof -
  from assms obtain s' i' where si: "s' \<in> set (searchee_table db)" "i' \<in> set (indexer_table db)"
    and mem: "(s, i, t) \<in> set (leftOuterJoin_timestamp db (s', i'))"
    and w: "searchee_name s = nm" "indexer_id i \<in> set ids"
    by (auto simp: joined_rows_def)
  let ?m = "filter (\<lambda>t. ts_indexer_id t = indexer_id i' \<and> ts_searchee_id t = searchee_id s')
              (timestamp_table db)"
  show ?thesis
  proof (cases ?m)
    case Nil
    with mem have "s = s'" "i = i'" "t = None" by (auto simp: leftOuterJoin_timestamp_def)
    with si w show ?thesis by simp
  next
    case (Cons x xs)
    with mem obtain row where "s = s'" "i = i'" "t = Some row" "row \<in> set ?m"
      by (auto simp: leftOuterJoin_timestamp_def)
    with si w show ?thesis by simp
  qed
qed

lemma never_searched_columns:
  assumes "never_searched db nm ids" and "r \<in> set (joined_rows db nm ids)"
  shows "timestamp_column first_searched r = None \<and> timestamp_column last_searched r = None"
proof -
  obtain s i t where r: "r = (s, i, t)" by (cases r)
  from joined_rows_cases [of s i t db nm ids] assms(2) r
  have c: "s \<in> set (searchee_table db)" "searchee_name s = nm" "indexer_id i \<in> set ids"
    "case t of None \<Rightarrow> True
          | Some row \<Rightarrow> row \<in> set (timestamp_table db) \<and> ts_indexer_id row = indexer_id i \<and>
                        ts_searchee_id row = searchee_id s"
    by simp_all
  show ?thesis
  proof (cases t)
    case None
    then show ?thesis by (simp add: r timestamp_column_def)
  next
    case (Some row)
    with c have "row \<in> set (timestamp_table db)" "ts_searchee_id row = searchee_id s"
      "ts_indexer_id row \<in> set ids" by simp_all
    with c(1,2) assms(1) have "first_searched row = None \<and> last_searched row = None"
      unfolding never_searched_def by blast
    with Some show ?thesis by (simp add: r timestamp_column_def)
  qed
qed

lemma never_searched_aggregate:
  assumes "never_searched db nm ids"
  shows "timestampDataSql db nm ids =
           (if joined_rows db nm ids = [] then \<lparr>first_searched_any = None, last_searched_all = None\<rparr>
            else \<lparr>first_searched_any = Some 9223372036854775807, last_searched_all = Some 0\<rparr>)"
proof -
  have f: "\<forall>r \<in> set (joined_rows db nm ids).
             coalesce (timestamp_column first_searched r) 9223372036854775807 = 9223372036854775807"
    using never_searched_columns [OF assms] by (simp add: coalesce_def)
  have l: "\<forall>r \<in> set (joined_rows db nm ids). coalesce (timestamp_column last_searched r) 0 = 0"
    using never_searched_columns [OF assms] by (simp add: coalesce_def)
  show ?thesis
    by (simp add: timestampDataSql_def sql_min_const [OF f] sql_min_const [OF l])
qed

text \<open>
  C8. A searchee that has never been searched on any of the enabled indexers is eligible,
  whatever \<^verbatim>\<open>excludeOlder\<close> and \<^verbatim>\<open>excludeRecentSearch\<close> are set to. The durations are
  durations (not negative) and the clock is a JavaScript time value (at most
  8,640,000,000,000,000 ms), so that the cut-off \<open>now - excludeOlder\<close> lies below the
  sentinel that stands for "never".
\<close>

theorem filterTimestamps_never_searched:
  assumes never: "never_searched db (name s) (map indexer_id enabledIndexers)"
    and now: "now \<le> 8640000000000000"
    and older: "\<forall>d. excludeOlder cfg = Some d \<longrightarrow> 0 \<le> d"
  shows "filterTimestamps cfg db enabledIndexers now s"
proof -
  have "\<not> 9223372036854775807 < nMsAgo now d" if "excludeOlder cfg = Some d" for d
    using that now older by (auto simp: nMsAgo_def)
  then show ?thesis
    by (auto simp: filterTimestamps_def never_searched_aggregate [OF never] Let_def
        split: option.splits)
qed

text \<open>The third indexer of the example has never searched the example searchee.\<close>

theorem filterTimestamps_never_searched_witness:
  "never_searched example_db (name (example_searchee None)) (map indexer_id [\<lparr>indexer_id = 3\<rparr>]) \<and>
   (1700003750000 :: int) \<le> 8640000000000000 \<and>
   excludeOlder example_config = Some 86400000 \<and> (0 :: int) \<le> 86400000 \<and>
   filterTimestamps example_config example_db [\<lparr>indexer_id = 3\<rparr>] 1700003750000
     (example_searchee None)"
  using filterTimestamps_never_searched
    [of example_db "example_searchee None" "[\<lparr>indexer_id = 3\<rparr>]" 1700003750000 example_config]
  by (simp add: never_searched_def example_db_def example_searchee_def example_config_def)

text \<open>
  The aggregate \<open>last_searched_all\<close> is the minimum over the joined rows, \<^verbatim>\<open>NULL\<close> when there
  is none.
\<close>

lemma last_searched_all_Min:
  "last_searched_all (timestampDataSql db nm ids) =
     (if joined_rows db nm ids = [] then None
      else Some (Min ((\<lambda>r. coalesce (timestamp_column last_searched r) 0) ` set (joined_rows db nm ids))))"
  by (simp add: timestampDataSql_def sql_min_Min)

text \<open>An enabled indexer without any timestamp row for the searchee contributes a row
  without timestamps, and times that are not negative keep every row at or above zero.\<close>

lemma joined_rows_unsearched:
  assumes "s \<in> set (searchee_table db)" and "i \<in> set (indexer_table db)"
    and "searchee_name s = nm" and "indexer_id i \<in> set ids"
    and "\<forall>t \<in> set (timestamp_table db).
           \<not> (ts_indexer_id t = indexer_id i \<and> ts_searchee_id t = searchee_id s)"
  shows "(s, i, None) \<in> set (joined_rows db nm ids)"
proof -
  from assms(5) have "filter (\<lambda>t. ts_indexer_id t = indexer_id i \<and> ts_searchee_id t = searchee_id s)
                (timestamp_table db) = []"
    by (simp add: filter_empty_conv)
  then have "leftOuterJoin_timestamp db (s, i) = [(s, i, None)]"
    by (simp add: leftOuterJoin_timestamp_def)
  with assms(1-4) show ?thesis
    by (force simp: joined_rows_def)
qed

lemma joined_rows_nonneg:
  assumes "\<forall>t \<in> set (timestamp_table db). \<forall>v. last_searched t = Some v \<longrightarrow> 0 \<le> v"
    and "r \<in> set (joined_rows db nm ids)"
  shows "0 \<le> coalesce (timestamp_column last_searched r) 0"
proof -
  obtain s i t where r: "r = (s, i, t)" by (cases r)
  show ?thesis
  proof (cases t)
    case None
    then show ?thesis by (simp add: r timestamp_column_def coalesce_def)
  next
    case (Some row)
    with joined_rows_cases [of s i t db nm ids] assms(2) r
    have "row \<in> set (timestamp_table db)" by simp
    with assms(1) Some show ?thesis
      by (cases "last_searched row") (simp_all add: r timestamp_column_def coalesce_def)
  qed
qed

text \<open>
  C4, as stated, fails: with two enabled indexers that last searched the searchee at
  different times, the aggregate is the earlier time, not the later one.
\<close>

theorem last_searched_all_counterexample:
  "last_searched_all (timestampDataSql example_db ''show'' [1, 2]) = Some 1700000100000 \<and>
   spec_last_searched_all example_db ''show'' [1, 2] = 1700000200000"
  by (simp add: timestampDataSql_def joined_rows_def leftOuterJoin_timestamp_def example_db_def
      sql_min_def coalesce_def timestamp_column_def spec_last_searched_all_def)

text \<open>
  C4, as the code has it. For every searchee name and every set of enabled indexers,
  \<open>last_searched_all\<close> is the earliest (minimum) last-search timestamp over the joined rows
  of the searchee and the enabled indexers, an indexer that has not searched the searchee
  counting as zero, and \<^verbatim>\<open>NULL\<close> when there is no such row. It is the time by which all
  the enabled indexers had searched it: as soon as one enabled indexer has no timestamp
  row for the searchee (the recorded times not being negative), it is zero. The "exclude
  recent" rule compares against that minimum: with only that rule configured, the
  searchee is eligible exactly when there is no row, or the minimum is zero, or the
  minimum is not newer than the cut-off.
\<close>

theorem last_searched_all_is_minimum:
  "last_searched_all (timestampDataSql db nm ids) =
     (if joined_rows db nm ids = [] then None
      else Some (Min ((\<lambda>r. coalesce (timestamp_column last_searched r) 0) `
                        set (joined_rows db nm ids))))
   \<and>
   (s' \<in> set (searchee_table db) \<and> i \<in> set (indexer_table db) \<and>
    searchee_name s' = nm \<and> indexer_id i \<in> set ids \<and>
    (\<forall>t \<in> set (timestamp_table db).
       \<not> (ts_indexer_id t = indexer_id i \<and> ts_searchee_id t = searchee_id s')) \<and>
    (\<forall>t \<in> set (timestamp_table db). \<forall>v. last_searched t = Some v \<longrightarrow> 0 \<le> v)
    \<longrightarrow> last_searched_all (timestampDataSql db nm ids) = Some 0)
   \<and>
   (excludeOlder cfg = None \<and> excludeRecentSearch cfg = Some recent \<longrightarrow>
      filterTimestamps cfg db enabledIndexers now s =
        (joined_rows db (name s) (map indexer_id enabledIndexers) = [] \<or>
         Min ((\<lambda>r. coalesce (timestamp_column last_searched r) 0) `
                set (joined_rows db (name s) (map indexer_id enabledIndexers))) = 0 \<or>
         Min ((\<lambda>r. coalesce (timestamp_column last_searched r) 0) `
                set (joined_rows db (name s) (map indexer_id enabledIndexers)))
           \<le> nMsAgo now recent))"
proof (intro conjI impI)
  show "last_searched_all (timestampDataSql db nm ids) =
     (if joined_rows db nm ids = [] then None
      else Some (Min ((\<lambda>r. coalesce (timestamp_column last_searched r) 0) `
                        set (joined_rows db nm ids))))"
    by (rule last_searched_all_Min)
next
  assume a: "s' \<in> set (searchee_table db) \<and> i \<in> set (indexer_table db) \<and>
    searchee_name s' = nm \<and> indexer_id i \<in> set ids \<and>
    (\<forall>t \<in> set (timestamp_table db).
       \<not> (ts_indexer_id t = indexer_id i \<and> ts_searchee_id t = searchee_id s')) \<and>
    (\<forall>t \<in> set (timestamp_table db). \<forall>v. last_searched t = Some v \<longrightarrow> 0 \<le> v)"
  let ?f = "\<lambda>r. coalesce (timestamp_column last_searched r) 0"
  from a have mem: "(s', i, None) \<in> set (joined_rows db nm ids)"
    by (intro joined_rows_unsearched) simp_all
  then have ne: "joined_rows db nm ids \<noteq> []" by auto
  have "Min (?f ` set (joined_rows db nm ids)) = 0"
  proof (rule Min_eqI)
    show "finite (?f ` set (joined_rows db nm ids))" by simp
    show "0 \<le> y" if "y \<in> ?f ` set (joined_rows db nm ids)" for y
      using that a joined_rows_nonneg [of db _ nm ids] by auto
    have "?f (s', i, None) = 0" by (simp add: timestamp_column_def coalesce_def)
    with mem show "0 \<in> ?f ` set (joined_rows db nm ids)" by force
  qed
  with ne show "last_searched_all (timestampDataSql db nm ids) = Some 0"
    by (simp add: last_searched_all_Min)
next
  assume a: "excludeOlder cfg = None \<and> excludeRecentSearch cfg = Some recent"
  let ?rows = "joined_rows db (name s) (map indexer_id enabledIndexers)"
  obtain la where la: "last_searched_all
      (timestampDataSql db (name s) (map indexer_id enabledIndexers)) = la" by simp
  have gate: "filterTimestamps cfg db enabledIndexers now s =
      (case la of None \<Rightarrow> True | Some m \<Rightarrow> m = 0 \<or> m \<le> nMsAgo now recent)"
    using a la by (auto simp: filterTimestamps_def Let_def split: option.splits)
  have "la = (if ?rows = [] then None
      else Some (Min ((\<lambda>r. coalesce (timestamp_column last_searched r) 0) ` set ?rows)))"
    unfolding la [symmetric] by (rule last_searched_all_Min)
  then show "filterTimestamps cfg db enabledIndexers now s =
        (?rows = [] \<or>
         Min ((\<lambda>r. coalesce (timestamp_column last_searched r) 0) ` set ?rows) = 0 \<or>
         Min ((\<lambda>r. coalesce (timestamp_column last_searched r) 0) ` set ?rows)
           \<le> nMsAgo now recent)"
    unfolding gate by (cases "?rows = []") (simp_all only: if_True if_False option.case simp_thms)
qed

text \<open>With the two indexers of the example enabled and a cut-off between their two
  last searches, the searchee is eligible: the earlier search decides. With the third
  indexer enabled as well, which has never searched it, the aggregate is zero.\<close>

theorem last_searched_all_is_minimum_witness:
  "excludeOlder (example_config\<lparr>excludeOlder := None\<rparr>) = None \<and>
   excludeRecentSearch (example_config\<lparr>excludeOlder := None\<rparr>) = Some 3600000 \<and>
   last_searched_all (timestampDataSql example_db ''show'' [1, 2]) = Some 1700000100000 \<and>
   filterTimestamps (example_config\<lparr>excludeOlder := None\<rparr>) example_db
     [\<lparr>indexer_id = 1\<rparr>, \<lparr>indexer_id = 2\<rparr>] 1700003750000 (example_searchee None) \<and>
   \<lparr>searchee_id = 1, searchee_name = ''show''\<rparr> \<in> set (searchee_table example_db) \<and>
   \<lparr>indexer_id = 3\<rparr> \<in> set (indexer_table example_db) \<and>
   last_searched_all (timestampDataSql example_db ''show'' [1, 2, 3]) = Some 0"
  using last_searched_all_is_minimum
    [of example_db "''show''" "[1, 2]" "\<lparr>searchee_id = 1, searchee_name = ''show''\<rparr>"
        "\<lparr>indexer_id = 3\<rparr>" "example_config\<lparr>excludeOlder := None\<rparr>" 3600000
        "[\<lparr>indexer_id = 1\<rparr>, \<lparr>indexer_id = 2\<rparr>]" 1700003750000 "example_searchee None"]
    last_searched_all_is_minimum
    [of example_db "''show''" "[1, 2, 3]" "\<lparr>searchee_id = 1, searchee_name = ''show''\<rparr>"
        "\<lparr>indexer_id = 3\<rparr>" "example_config\<lparr>excludeOlder := None\<rparr>" 3600000
        "[\<lparr>indexer_id = 1\<rparr>, \<lparr>indexer_id = 2\<rparr>]" 1700003750000 "example_searchee None"]
  by (simp add: example_config_def example_searchee_def joined_rows_def
      leftOuterJoin_timestamp_def example_db_def coalesce_def timestamp_column_def nMsAgo_def)

section \<open>The Deluge client: traces and replies\<close>

lemma call_split:
  obtains req where
    "call srv m ps s =
       (srv (posted s) req,
        s\<lparr>msgId := (if msgId s + 1 > 1024 then 0 else msgId s + 1), posted := posted s @ [req]\<rparr>)"
    "req_method req = m" "req_params req = ps"
  by (simp add: call_def Let_def)

lemma get_prop_defined: "v \<noteq> JNull \<Longrightarrow> v \<noteq> JUndefined \<Longrightarrow> \<exists>w. get_prop v k = Inr w"
  by (cases v) simp_all

lemma reply_value_defined:
  "data r \<noteq> JNull \<Longrightarrow> data r \<noteq> JUndefined \<Longrightarrow> \<exists>v. reply_value (Some r) = Inr v"
  using get_prop_defined [of "data r" "''error''"] by (auto simp: reply_value_def)

text \<open>What one call adds to the trace and leaves alone.\<close>

lemma call_trace:
  "\<exists>req. fst (call srv m ps s) = srv (posted s) req \<and>
         posted (snd (call srv m ps s)) = posted s @ [req] \<and>
         req_method req = m \<and> req_params req = ps \<and>
         loggedIn (snd (call srv m ps s)) = loggedIn s \<and>
         enLabeled (snd (call srv m ps s)) = enLabeled s \<and>
         delugeLabel (snd (call srv m ps s)) = delugeLabel s \<and>
         delugeWebUrl (snd (call srv m ps s)) = delugeWebUrl s \<and>
         delugeCookie (snd (call srv m ps s)) = delugeCookie s"
  by (rule call_split [of srv m ps s]) auto

lemma authenticate_trace:
  "\<exists>req. posted (snd (authenticate srv s)) = posted s @ [req] \<and>
         req_method req = (if loggedIn s then ''auth.check_session'' else ''auth.login'') \<and>
         enLabeled (snd (authenticate srv s)) = enLabeled s \<and>
         delugeLabel (snd (authenticate srv s)) = delugeLabel s \<and>
         delugeWebUrl (snd (authenticate srv s)) = delugeWebUrl s"
proof (cases "loggedIn s")
  case True
  obtain req where c: "call srv ''auth.check_session'' [JStr (delugeCookie s)] s =
       (srv (posted s) req,
        s\<lparr>msgId := (if msgId s + 1 > 1024 then 0 else msgId s + 1), posted := posted s @ [req]\<rparr>)"
    "req_method req = ''auth.check_session''"
    by (rule call_split)
  with True show ?thesis by (simp add: authenticate_def Let_def)
next
  case False
  obtain req where c: "call srv ''auth.login'' [JStr (password (delugeWebUrl s))] s =
       (srv (posted s) req,
        s\<lparr>msgId := (if msgId s + 1 > 1024 then 0 else msgId s + 1), posted := posted s @ [req]\<rparr>)"
    "req_method req = ''auth.login''"
    by (rule call_split)
  with False show ?thesis
    by (simp add: authenticate_def Let_def split: option.splits sum.splits)
qed

lemma authenticate_login:
  assumes "\<not> loggedIn s" and "answers srv ''auth.login''"
  shows "\<exists>b. fst (authenticate srv s) = Inr b"
proof -
  obtain req where c: "call srv ''auth.login'' [JStr (password (delugeWebUrl s))] s =
       (srv (posted s) req,
        s\<lparr>msgId := (if msgId s + 1 > 1024 then 0 else msgId s + 1), posted := posted s @ [req]\<rparr>)"
    "req_method req = ''auth.login''"
    by (rule call_split)
  from assms(2) c(2) obtain r where
    r: "srv (posted s) req = Some r" "data r \<noteq> JNull" "data r \<noteq> JUndefined"
    unfolding answers_def by blast
  from get_prop_defined [OF r(2,3)] obtain w where "get_prop (data r) ''result'' = Inr w" by blast
  with assms(1) c r show ?thesis by (auto simp: authenticate_def Let_def)
qed

lemma responsive_answers: "responsive srv \<Longrightarrow> answers srv m"
  by (simp add: responsive_def answers_def)

lemma responsive_can_log_in: "responsive srv \<Longrightarrow> can_log_in srv s"
  by (simp add: can_log_in_def responsive_answers)

text \<open>\<open>sendCall\<close>, whatever the client does: at most one login, then at most the call.\<close>

lemma sendCall_trace:
  "\<exists>extra. posted (snd (sendCall srv m ps s)) = posted s @ extra \<and>
     (\<forall>x \<in> set extra. req_method x = ''auth.login'' \<or> (req_method x = m \<and> req_params x = ps)) \<and>
     length extra \<le> 2 \<and>
     enLabeled (snd (sendCall srv m ps s)) = enLabeled s \<and>
     delugeLabel (snd (sendCall srv m ps s)) = delugeLabel s \<and>
     delugeWebUrl (snd (sendCall srv m ps s)) = delugeWebUrl s"
proof (cases "loggedIn s")
  case True
  from call_trace [of srv m ps s] True show ?thesis
    by (auto simp: sendCall_def split: prod.splits)
next
  case False
  obtain a s1 where a: "authenticate srv s = (a, s1)" by (cases "authenticate srv s")
  from authenticate_trace [of srv s] a False obtain lg where
    lg: "posted s1 = posted s @ [lg]" "req_method lg = ''auth.login''"
      "enLabeled s1 = enLabeled s" "delugeLabel s1 = delugeLabel s" "delugeWebUrl s1 = delugeWebUrl s"
    by auto
  show ?thesis
  proof (cases a)
    case (Inl e)
    with a False lg show ?thesis by (simp add: sendCall_def)
  next
    case (Inr b)
    obtain resp s2 where c: "call srv m ps s1 = (resp, s2)" by (cases "call srv m ps s1")
    from call_trace [of srv m ps s1] c obtain req where
      "posted s2 = posted s1 @ [req]" "req_method req = m" "req_params req = ps"
      "enLabeled s2 = enLabeled s1" "delugeLabel s2 = delugeLabel s1"
      "delugeWebUrl s2 = delugeWebUrl s1"
      by auto
    with Inr a False lg c show ?thesis
      by (simp add: sendCall_def)
  qed
qed

text \<open>\<open>sendCall\<close> to a client that answers: the value is that of the client's answer to
  the call, given the trace so far and the login, if one was needed.\<close>

lemma sendCall_outcome:
  assumes sess: "can_log_in srv s"
  shows "\<exists>pre req s'. sendCall srv m ps s = (reply_value (srv (posted s @ pre) req), s') \<and>
           posted s' = posted s @ pre @ [req] \<and>
           req_method req = m \<and> req_params req = ps \<and>
           (\<forall>x \<in> set pre. req_method x = ''auth.login'') \<and>
           enLabeled s' = enLabeled s \<and> delugeLabel s' = delugeLabel s"
proof -
  have step: "\<exists>req s'. call srv m ps t = (srv (posted t) req, s') \<and>
           posted s' = posted t @ [req] \<and> req_method req = m \<and> req_params req = ps \<and>
           enLabeled s' = enLabeled t \<and> delugeLabel s' = delugeLabel t" for t
  proof -
    obtain req where c: "call srv m ps t =
       (srv (posted t) req,
        t\<lparr>msgId := (if msgId t + 1 > 1024 then 0 else msgId t + 1), posted := posted t @ [req]\<rparr>)"
      "req_method req = m" "req_params req = ps"
      by (rule call_split)
    then show ?thesis by simp
  qed
  show ?thesis
  proof (cases "loggedIn s")
    case True
    from step [of s] obtain req s' where
      "call srv m ps s = (srv (posted s) req, s')" "posted s' = posted s @ [req]"
      "req_method req = m" "req_params req = ps"
      "enLabeled s' = enLabeled s" "delugeLabel s' = delugeLabel s" by blast
    with True have "sendCall srv m ps s = (reply_value (srv (posted s @ []) req), s') \<and>
           posted s' = posted s @ [] @ [req] \<and>
           req_method req = m \<and> req_params req = ps \<and>
           (\<forall>x \<in> set []. req_method x = ''auth.login'') \<and>
           enLabeled s' = enLabeled s \<and> delugeLabel s' = delugeLabel s"
      by (simp add: sendCall_def)
    then show ?thesis by blast
  next
    case False
    with sess have login: "answers srv ''auth.login''" by (simp add: can_log_in_def)
    obtain a s1 where a: "authenticate srv s = (a, s1)" by (cases "authenticate srv s")
    from authenticate_login [OF False login] a obtain b where b: "a = Inr b" by auto
    from authenticate_trace [of srv s] a False obtain lg where
      lg: "posted s1 = posted s @ [lg]" "req_method lg = ''auth.login''"
        "enLabeled s1 = enLabeled s" "delugeLabel s1 = delugeLabel s"
      by auto
    from step [of s1] obtain req s' where
      "call srv m ps s1 = (srv (posted s1) req, s')" "posted s' = posted s1 @ [req]"
      "req_method req = m" "req_params req = ps"
      "enLabeled s' = enLabeled s1" "delugeLabel s' = delugeLabel s1" by blast
    with False a b lg have "sendCall srv m ps s = (reply_value (srv (posted s @ [lg]) req), s') \<and>
           posted s' = posted s @ [lg] @ [req] \<and>
           req_method req = m \<and> req_params req = ps \<and>
           (\<forall>x \<in> set [lg]. req_method x = ''auth.login'') \<and>
           enLabeled s' = enLabeled s \<and> delugeLabel s' = delugeLabel s"
      by (simp add: sendCall_def)
    then show ?thesis by blast
  qed
qed

lemma sendCall_answered:
  assumes sess: "can_log_in srv s" and ans: "answers srv m"
  shows "\<exists>pre req r v s'. sendCall srv m ps s = (Inr v, s') \<and> reply_value (Some r) = Inr v \<and>
           srv (posted s @ pre) req = Some r \<and> posted s' = posted s @ pre @ [req] \<and>
           req_method req = m \<and> req_params req = ps \<and>
           (\<forall>x \<in> set pre. req_method x = ''auth.login'') \<and>
           enLabeled s' = enLabeled s \<and> delugeLabel s' = delugeLabel s"
proof -
  from sendCall_outcome [OF sess, of m ps] obtain pre req s' where
    o: "sendCall srv m ps s = (reply_value (srv (posted s @ pre) req), s')"
      "posted s' = posted s @ pre @ [req]" "req_method req = m" "req_params req = ps"
      "\<forall>x \<in> set pre. req_method x = ''auth.login''"
      "enLabeled s' = enLabeled s" "delugeLabel s' = delugeLabel s"
    by blast
  from ans o(3) obtain r where
    r: "srv (posted s @ pre) req = Some r" "data r \<noteq> JNull" "data r \<noteq> JUndefined"
    unfolding answers_def by blast
  from reply_value_defined [OF r(2,3)] obtain v where "reply_value (Some r) = Inr v" by blast
  with o r show ?thesis by auto
qed

text \<open>The only fault \<open>reply_value\<close> raises is the \<^verbatim>\<open>TypeError\<close> of a member read.\<close>

lemma get_prop_fault: "get_prop v k = Inl e \<Longrightarrow> e = TypeError"
  by (cases v) simp_all

lemma reply_value_fault: "reply_value x = Inl e \<Longrightarrow> e = TypeError"
  by (auto simp: reply_value_def dest: get_prop_fault split: option.splits if_splits)

lemma sendCall_responsive:
  assumes "responsive srv"
  shows "\<exists>pre req r v s'. sendCall srv m ps s = (Inr v, s') \<and> reply_value (Some r) = Inr v \<and>
           srv (posted s @ pre) req = Some r \<and> posted s' = posted s @ pre @ [req] \<and>
           req_method req = m \<and> req_params req = ps \<and>
           (\<forall>x \<in> set pre. req_method x = ''auth.login'') \<and>
           enLabeled s' = enLabeled s \<and> delugeLabel s' = delugeLabel s"
  by (rule sendCall_answered [OF responsive_can_log_in [OF assms] responsive_answers [OF assms]])

text \<open>A session that is authenticated stays so through \<open>sendCall\<close>, and a call that could
  get through before can get through after.\<close>

lemma sendCall_loggedIn: "loggedIn s \<Longrightarrow> loggedIn (snd (sendCall srv m ps s))"
  using call_trace [of srv m ps s] by (auto simp: sendCall_def split: prod.splits)

lemma sendCall_can_log_in: "can_log_in srv s \<Longrightarrow> can_log_in srv (snd (sendCall srv m ps s))"
  using sendCall_loggedIn [of s srv m ps] by (auto simp: can_log_in_def)

text \<open>None of the awaited operations touches the record of unhandled rejections.\<close>

lemma call_unhandled: "unhandled (snd (call srv m ps s)) = unhandled s"
  by (simp add: call_def Let_def)

lemma authenticate_unhandled: "unhandled (snd (authenticate srv s)) = unhandled s"
proof (cases "loggedIn s")
  case True
  obtain req where "call srv ''auth.check_session'' [JStr (delugeCookie s)] s =
       (srv (posted s) req,
        s\<lparr>msgId := (if msgId s + 1 > 1024 then 0 else msgId s + 1), posted := posted s @ [req]\<rparr>)"
    by (rule call_split)
  with True show ?thesis by (simp add: authenticate_def Let_def)
next
  case False
  obtain req where "call srv ''auth.login'' [JStr (password (delugeWebUrl s))] s =
       (srv (posted s) req,
        s\<lparr>msgId := (if msgId s + 1 > 1024 then 0 else msgId s + 1), posted := posted s @ [req]\<rparr>)"
    by (rule call_split)
  with False show ?thesis
    by (simp add: authenticate_def Let_def split: option.splits sum.splits)
qed

lemma sendCall_unhandled: "unhandled (snd (sendCall srv m ps s)) = unhandled s"
proof (cases "loggedIn s")
  case True
  with call_unhandled [of srv m ps s] show ?thesis
    by (auto simp: sendCall_def split: prod.splits)
next
  case False
  obtain a s1 where a: "authenticate srv s = (a, s1)" by (cases "authenticate srv s")
  with authenticate_unhandled [of srv s] have u: "unhandled s1 = unhandled s" by simp
  show ?thesis
  proof (cases a)
    case (Inl e)
    with a False u show ?thesis by (simp add: sendCall_def)
  next
    case (Inr b)
    with a False u call_unhandled [of srv m ps s1] show ?thesis
      by (auto simp: sendCall_def split: prod.splits)
  qed
qed

lemma can_log_in_unhandled [simp]: "can_log_in srv (s\<lparr>unhandled := u\<rparr>) = can_log_in srv s"
  by (simp add: can_log_in_def)

lemma reply_value_error_with:
  assumes "error_with w (data r)"
  shows "\<exists>e m. reply_value (Some r) = Inr e \<and> get_prop e ''message'' = Inr m \<and> truthy m \<and>
           js_includes m w = Inr True"
  using assms by (auto simp: error_with_def reply_value_def split: sum.splits)

lemma reply_value_accepts:
  assumes "accepts (data r)"
  shows "\<exists>res. reply_value (Some r) = Inr (data r) \<and> get_prop (data r) ''result'' = Inr res \<and>
           truthy res"
  using assms by (auto simp: accepts_def reply_value_def split: sum.splits)

lemma reply_value_refuses_with:
  assumes "refuses_with w (data r)"
  shows "\<exists>e res m. reply_value (Some r) = Inr e \<and> get_prop e ''result'' = Inr res \<and>
           \<not> truthy res \<and> get_prop e ''message'' = Inr m \<and> truthy m \<and>
           js_includes m w = Inr True"
  using assms
  by (auto simp: refuses_with_def error_with_def reply_value_def split: sum.splits)

lemma reply_value_reports_state:
  assumes "reports_state (data r) infohash st"
  shows "reply_value (Some r) = Inr (data r) \<and> torrent_state (data r) infohash = Inr st"
  using assms by (auto simp: reports_state_def reply_value_def)

lemma filter_logins:
  "\<forall>x \<in> set pre. req_method x = ''auth.login'' \<Longrightarrow>
     filter (\<lambda>m. m = ''label.add'' \<or> m = ''label.set_torrent'') (map req_method pre) = []"
  by (induction pre) auto

text \<open>The simulated client and the example session.\<close>

lemma example_session_eq:
  "example_session plugins =
     \<lparr>msgId = 2, loggedIn = True, delugeCookie = ''_session_id=5f2c'',
      delugeWebUrl = \<lparr>origin = ''http://localhost:8112'', pathname = ''/json'',
                       username = [], password = ''deluge''\<rparr>,
      delugeLabel = ''cross-seed'', enLabeled = Some (js_includes plugins ''Label''),
      posted =
        [\<lparr>req_url = ''http://localhost:8112/json'', req_cookie = [], req_id = 1,
          req_method = ''auth.login'', req_params = [JStr ''deluge'']\<rparr>,
         \<lparr>req_url = ''http://localhost:8112/json'', req_cookie = ''_session_id=5f2c'',
          req_id = 2, req_method = ''core.get_enabled_plugins'', req_params = []\<rparr>],
      unhandled = rejection (js_includes plugins ''Label'')\<rparr>"
  by (simp add: example_session_def validateConfig_def authenticate_def call_def labelEnabled_def
      sendCall_def reply_value_def deluge_sim_def rpc_result_def new_Deluge_def example_config_def
      rejection_def Let_def split: sum.splits)

lemma deluge_sim_responsive: "responsive (deluge_sim plugins torrents)"
  by (simp add: responsive_def deluge_sim_def rpc_result_def rpc_error_def)

lemma deluge_sim_jsonrpc: "jsonrpc_client (deluge_sim plugins torrents)"
  by (simp add: jsonrpc_client_def deluge_sim_def rpc_result_def rpc_error_def jsonrpc_body_def
      message_ok_def)

lemma deluge_sim_accepts_once: "accepts_once (deluge_sim plugins torrents) params"
  by (simp add: accepts_once_def deluge_sim_def rpc_result_def rpc_error_def accepts_def
      refuses_with_def error_with_def)

lemma deluge_sim_reports_seeding:
  "reports_seeding (deluge_sim plugins (example_torrents ''Seeding'')) ''abc123''"
  by (simp add: reports_seeding_def deluge_sim_def rpc_result_def reports_state_def
      torrent_state_def example_torrents_def)

lemma deluge_sim_reports_unfinished:
  "reports_unfinished (deluge_sim plugins (example_torrents ''Downloading'')) ''abc123''"
  by (simp add: reports_unfinished_def deluge_sim_def rpc_result_def reports_state_def
      torrent_state_def example_torrents_def)

lemma deluge_sim_lists_state:
  "lists_state (deluge_sim plugins (example_torrents st)) ''abc123''"
  by (simp add: lists_state_def deluge_sim_def rpc_result_def reports_state_def
      torrent_state_def example_torrents_def)

lemma label_never_known_responsive: "responsive srv \<Longrightarrow> responsive (label_never_known srv)"
  by (simp add: responsive_def label_never_known_def rpc_error_def)

lemma label_never_known_unknown: "unknown_until_added (label_never_known srv) h0"
  by (simp add: unknown_until_added_def label_never_known_def rpc_error_def error_with_def)

lemma deluge_sim_unknown_until_added:
  "\<forall>x \<in> set h0. req_method x \<noteq> ''label.add'' \<Longrightarrow>
     unknown_until_added (deluge_sim (JArr [JStr ''Label'']) torrents) h0"
  by (auto simp: unknown_until_added_def deluge_sim_def rpc_error_def error_with_def)

section \<open>The session manager\<close>

text \<open>
  C7, as stated, fails: a call through \<open>sendCall\<close> on an authenticated session posts the
  call and nothing else; no \<^verbatim>\<open>auth.check_session\<close> precedes it.
\<close>

theorem sendCall_probe_counterexample:
  "loggedIn (example_session (JArr [JStr ''Label''])) \<and>
   map req_method
     (new_posts (example_session (JArr [JStr ''Label'']))
        (snd (sendCall (deluge_sim (JArr [JStr ''Label'']) (example_torrents ''Seeding''))
                ''core.get_enabled_plugins'' [] (example_session (JArr [JStr ''Label''])))))
   = [''core.get_enabled_plugins'']"
  by (simp add: example_session_eq sendCall_def call_def new_posts_def Let_def)

text \<open>
  C7, as the code has it. A call issued through \<open>sendCall\<close> while the session is
  authenticated is posted directly: exactly one request, that of the call, with no probe
  before it, and the session stays authenticated. The probe \<^verbatim>\<open>auth.check_session\<close> is what
  \<open>authenticate\<close> posts when it is invoked on an authenticated session, and a probe that
  gets no response marks the session unauthenticated. On an unauthenticated session
  \<open>sendCall\<close> logs in once and posts the call at most once: it neither repeats the login
  nor retries the call.
\<close>

theorem sendCall_posts_directly:
  "(loggedIn s \<longrightarrow>
      (\<exists>req. new_posts s (snd (sendCall srv m ps s)) = [req] \<and>
             req_method req = m \<and> req_params req = ps \<and>
             fst (sendCall srv m ps s) = reply_value (srv (posted s) req) \<and>
             loggedIn (snd (sendCall srv m ps s))))
   \<and>
   (loggedIn s \<longrightarrow>
      (\<exists>req. new_posts s (snd (authenticate srv s)) = [req] \<and>
             req_method req = ''auth.check_session'' \<and>
             (srv (posted s) req = None \<longrightarrow> \<not> loggedIn (snd (authenticate srv s)))))
   \<and>
   (\<not> loggedIn s \<longrightarrow>
      map req_method (new_posts s (snd (sendCall srv m ps s)))
        \<in> {[''auth.login''], [''auth.login'', m]})"
proof (intro conjI impI)
  assume l: "loggedIn s"
  obtain req where c: "call srv m ps s =
       (srv (posted s) req,
        s\<lparr>msgId := (if msgId s + 1 > 1024 then 0 else msgId s + 1), posted := posted s @ [req]\<rparr>)"
    "req_method req = m" "req_params req = ps"
    by (rule call_split)
  with l have "new_posts s (snd (sendCall srv m ps s)) = [req] \<and>
             req_method req = m \<and> req_params req = ps \<and>
             fst (sendCall srv m ps s) = reply_value (srv (posted s) req) \<and>
             loggedIn (snd (sendCall srv m ps s))"
    by (simp add: sendCall_def new_posts_def)
  then show "\<exists>req. new_posts s (snd (sendCall srv m ps s)) = [req] \<and>
             req_method req = m \<and> req_params req = ps \<and>
             fst (sendCall srv m ps s) = reply_value (srv (posted s) req) \<and>
             loggedIn (snd (sendCall srv m ps s))" by (rule exI)
next
  assume l: "loggedIn s"
  obtain req where c: "call srv ''auth.check_session'' [JStr (delugeCookie s)] s =
       (srv (posted s) req,
        s\<lparr>msgId := (if msgId s + 1 > 1024 then 0 else msgId s + 1), posted := posted s @ [req]\<rparr>)"
    "req_method req = ''auth.check_session''"
    by (rule call_split)
  with l have "new_posts s (snd (authenticate srv s)) = [req] \<and>
             req_method req = ''auth.check_session'' \<and>
             (srv (posted s) req = None \<longrightarrow> \<not> loggedIn (snd (authenticate srv s)))"
    by (simp add: authenticate_def new_posts_def Let_def)
  then show "\<exists>req. new_posts s (snd (authenticate srv s)) = [req] \<and>
             req_method req = ''auth.check_session'' \<and>
             (srv (posted s) req = None \<longrightarrow> \<not> loggedIn (snd (authenticate srv s)))"
    by (rule exI)
next
  assume n: "\<not> loggedIn s"
  obtain a s1 where a: "authenticate srv s = (a, s1)" by (cases "authenticate srv s")
  from authenticate_trace [of srv s] a n obtain lg where
    lg: "posted s1 = posted s @ [lg]" "req_method lg = ''auth.login''" by auto
  show "map req_method (new_posts s (snd (sendCall srv m ps s)))
        \<in> {[''auth.login''], [''auth.login'', m]}"
  proof (cases a)
    case (Inl e)
    with a n lg show ?thesis by (simp add: sendCall_def new_posts_def)
  next
    case (Inr b)
    obtain resp s2 where c: "call srv m ps s1 = (resp, s2)" by (cases "call srv m ps s1")
    from call_trace [of srv m ps s1] c obtain req where
      "posted s2 = posted s1 @ [req]" "req_method req = m" by auto
    with Inr a n lg c show ?thesis by (simp add: sendCall_def new_posts_def)
  qed
qed

text \<open>The three cases on the example session, an unreachable client and a new object.\<close>

theorem sendCall_posts_directly_witness:
  "loggedIn (example_session (JArr [JStr ''Label''])) \<and>
   (\<exists>req. new_posts (example_session (JArr [JStr ''Label'']))
            (snd (sendCall (deluge_sim (JArr [JStr ''Label'']) (example_torrents ''Seeding''))
                    ''label.add'' [JStr ''cross-seed''] (example_session (JArr [JStr ''Label'']))))
          = [req] \<and>
          req_method req = ''label.add'') \<and>
   (\<exists>req. new_posts (example_session (JArr [JStr ''Label'']))
            (snd (authenticate no_reply (example_session (JArr [JStr ''Label'']))))
          = [req] \<and>
          req_method req = ''auth.check_session'' \<and>
          no_reply (posted (example_session (JArr [JStr ''Label'']))) req = None \<and>
          \<not> loggedIn (snd (authenticate no_reply (example_session (JArr [JStr ''Label''])))))
   \<and>
   \<not> loggedIn (new_Deluge example_config) \<and>
   map req_method
     (new_posts (new_Deluge example_config)
        (snd (sendCall (deluge_sim (JArr [JStr ''Label'']) (example_torrents ''Seeding''))
                ''label.add'' [JStr ''cross-seed''] (new_Deluge example_config))))
     \<in> {[''auth.login''], [''auth.login'', ''label.add'']}"
  using sendCall_posts_directly
    [where srv = "deluge_sim (JArr [JStr ''Label'']) (example_torrents ''Seeding'')"
       and s = "example_session (JArr [JStr ''Label''])" and m = "''label.add''"
       and ps = "[JStr ''cross-seed'']"]
    sendCall_posts_directly
    [where srv = no_reply
       and s = "example_session (JArr [JStr ''Label''])" and m = "''label.add''"
       and ps = "[JStr ''cross-seed'']"]
    sendCall_posts_directly
    [where srv = "deluge_sim (JArr [JStr ''Label'']) (example_torrents ''Seeding'')"
       and s = "new_Deluge example_config" and m = "''label.add''"
       and ps = "[JStr ''cross-seed'']"]
  by (auto simp: example_session_eq no_reply_def new_Deluge_def)

section \<open>The label manager\<close>

text \<open>
  C6. When labelling is supported and the client answers the label-set with an
  unknown-label error (as long as no label has been created), \<open>setLabel\<close> issues exactly
  one create-label call followed by exactly one retried label-set, and nothing more
  whatever the answer to the retried set is, an unknown-label error included: the label
  requests it posts are the set, the create and the retried set, in this order. The
  calls get through (the session is authenticated, or the client answers a login) and
  the client answers the create-label call. \<open>setLabel\<close> then returns \<^verbatim>\<open>true\<close> when the
  retried set is answered with a body; otherwise it ends in \<^verbatim>\<open>true\<close> or in a \<^verbatim>\<open>TypeError\<close>.
\<close>

theorem setLabel_creates_label_once:
  assumes en: "enLabeled s = Some (Inr True)"
    and sess: "can_log_in srv s"
    and add: "answers srv ''label.add''"
    and unknown: "unknown_until_added srv (posted s)"
  shows "filter (\<lambda>m. m = ''label.add'' \<or> m = ''label.set_torrent'')
             (map req_method (new_posts s (snd (setLabel srv torrenthash s))))
           = [''label.set_torrent'', ''label.add'', ''label.set_torrent''] \<and>
         (fst (setLabel srv torrenthash s) = Inr True \<or>
          fst (setLabel srv torrenthash s) = Inl TypeError) \<and>
         (answers srv ''label.set_torrent'' \<longrightarrow> fst (setLabel srv torrenthash s) = Inr True)"
proof -
  from sendCall_outcome [OF sess, of "''label.set_torrent''"
      "[JStr torrenthash, JStr (delugeLabel s)]"]
  obtain pre1 req1 s1 where
    c1: "sendCall srv ''label.set_torrent'' [JStr torrenthash, JStr (delugeLabel s)] s
           = (reply_value (srv (posted s @ pre1) req1), s1)"
    and p1: "posted s1 = posted s @ pre1 @ [req1]"
    and m1: "req_method req1 = ''label.set_torrent''"
    and l1: "\<forall>x \<in> set pre1. req_method x = ''auth.login''"
    by blast
  from l1 have "\<forall>x \<in> set pre1. req_method x \<noteq> ''label.add''"
    by auto
  with unknown m1 obtain r1 where r1: "srv (posted s @ pre1) req1 = Some r1"
    "error_with ''Unknown Label'' (data r1)"
    unfolding unknown_until_added_def by blast
  from reply_value_error_with [OF r1(2)] obtain v1 m where
    v1: "reply_value (Some r1) = Inr v1"
    and msg: "get_prop v1 ''message'' = Inr m" "truthy m"
      "js_includes m ''Unknown Label'' = Inr True"
    by blast
  from c1 r1(1) v1
  have c1': "sendCall srv ''label.set_torrent'' [JStr torrenthash, JStr (delugeLabel s)] s
               = (Inr v1, s1)" by simp
  then have "s1 = snd (sendCall srv ''label.set_torrent''
                         [JStr torrenthash, JStr (delugeLabel s)] s)" by simp
  with sess have g1: "can_log_in srv s1" by (simp add: sendCall_can_log_in)
  from sendCall_answered [OF g1 add, of "[JStr (delugeLabel s1)]"]
  obtain pre2 req2 v2 s2 where
    c2: "sendCall srv ''label.add'' [JStr (delugeLabel s1)] s1 = (Inr v2, s2)"
    and p2: "posted s2 = posted s1 @ pre2 @ [req2]"
    and m2: "req_method req2 = ''label.add''"
    and l2: "\<forall>x \<in> set pre2. req_method x = ''auth.login''"
    by blast
  from c2 have "s2 = snd (sendCall srv ''label.add'' [JStr (delugeLabel s1)] s1)" by simp
  with g1 have g2: "can_log_in srv s2" by (simp add: sendCall_can_log_in)
  from sendCall_outcome [OF g2, of "''label.set_torrent''"
      "[JStr torrenthash, JStr (delugeLabel s2)]"]
  obtain pre3 req3 s3 where
    c3: "sendCall srv ''label.set_torrent'' [JStr torrenthash, JStr (delugeLabel s2)] s2
           = (reply_value (srv (posted s2 @ pre3) req3), s3)"
    and p3: "posted s3 = posted s2 @ pre3 @ [req3]"
    and m3: "req_method req3 = ''label.set_torrent''"
    and l3: "\<forall>x \<in> set pre3. req_method x = ''auth.login''"
    by blast
  let ?last = "reply_value (srv (posted s2 @ pre3) req3)"
  have res: "setLabel srv torrenthash s =
               ((case ?last of Inl e \<Rightarrow> Inl e | Inr retried \<Rightarrow> Inr True), s3)"
    using en c1' msg c2 c3 by (simp add: setLabel_def split: sum.splits)
  have "new_posts s s3 = pre1 @ [req1] @ pre2 @ [req2] @ pre3 @ [req3]"
    by (simp add: new_posts_def p1 p2 p3)
  then have trace: "filter (\<lambda>m. m = ''label.add'' \<or> m = ''label.set_torrent'')
             (map req_method (new_posts s (snd (setLabel srv torrenthash s))))
           = [''label.set_torrent'', ''label.add'', ''label.set_torrent'']"
    by (simp add: res filter_logins [OF l1] filter_logins [OF l2] filter_logins [OF l3] m1 m2 m3)
  have outcome: "fst (setLabel srv torrenthash s) = Inr True \<or>
          fst (setLabel srv torrenthash s) = Inl TypeError"
    using reply_value_fault [of "srv (posted s2 @ pre3) req3"]
    by (cases ?last) (simp_all add: res)
  have answered: "fst (setLabel srv torrenthash s) = Inr True"
    if "answers srv ''label.set_torrent''"
  proof -
    from that m3 obtain r3 where "srv (posted s2 @ pre3) req3 = Some r3"
      "data r3 \<noteq> JNull" "data r3 \<noteq> JUndefined"
      unfolding answers_def by blast
    with reply_value_defined [of r3] obtain v3 where "?last = Inr v3" by auto
    then show ?thesis by (simp add: res)
  qed
  from trace outcome answered show ?thesis by blast
qed

text \<open>On a client that never gets to know the label (the retried set fails again), and
  on the simulated client, which knows the label once it is created.\<close>

theorem setLabel_creates_label_once_witness:
  "enLabeled (example_session (JArr [JStr ''Label''])) = Some (Inr True) \<and>
   can_log_in (label_never_known (deluge_sim (JArr [JStr ''Label'']) (example_torrents ''Seeding'')))
     (example_session (JArr [JStr ''Label''])) \<and>
   answers (label_never_known (deluge_sim (JArr [JStr ''Label'']) (example_torrents ''Seeding'')))
     ''label.add'' \<and>
   answers (label_never_known (deluge_sim (JArr [JStr ''Label'']) (example_torrents ''Seeding'')))
     ''label.set_torrent'' \<and>
   unknown_until_added
     (label_never_known (deluge_sim (JArr [JStr ''Label'']) (example_torrents ''Seeding'')))
     (posted (example_session (JArr [JStr ''Label'']))) \<and>
   filter (\<lambda>m. m = ''label.add'' \<or> m = ''label.set_torrent'')
     (map req_method
        (new_posts (example_session (JArr [JStr ''Label'']))
           (snd (setLabel
                   (label_never_known
                      (deluge_sim (JArr [JStr ''Label'']) (example_torrents ''Seeding'')))
                   ''c0ffee'' (example_session (JArr [JStr ''Label'']))))))
     = [''label.set_torrent'', ''label.add'', ''label.set_torrent''] \<and>
   fst (setLabel
          (label_never_known (deluge_sim (JArr [JStr ''Label'']) (example_torrents ''Seeding'')))
          ''c0ffee'' (example_session (JArr [JStr ''Label'']))) = Inr True \<and>
   can_log_in (deluge_sim (JArr [JStr ''Label'']) (example_torrents ''Seeding''))
     (example_session (JArr [JStr ''Label''])) \<and>
   answers (deluge_sim (JArr [JStr ''Label'']) (example_torrents ''Seeding'')) ''label.add'' \<and>
   answers (deluge_sim (JArr [JStr ''Label'']) (example_torrents ''Seeding''))
     ''label.set_torrent'' \<and>
   unknown_until_added (deluge_sim (JArr [JStr ''Label'']) (example_torrents ''Seeding''))
     (posted (example_session (JArr [JStr ''Label'']))) \<and>
   filter (\<lambda>m. m = ''label.add'' \<or> m = ''label.set_torrent'')
     (map req_method
        (new_posts (example_session (JArr [JStr ''Label'']))
           (snd (setLabel (deluge_sim (JArr [JStr ''Label'']) (example_torrents ''Seeding''))
                   ''c0ffee'' (example_session (JArr [JStr ''Label'']))))))
     = [''label.set_torrent'', ''label.add'', ''label.set_torrent''] \<and>
   fst (setLabel (deluge_sim (JArr [JStr ''Label'']) (example_torrents ''Seeding''))
          ''c0ffee'' (example_session (JArr [JStr ''Label'']))) = Inr True"
  using setLabel_creates_label_once
    [where srv = "label_never_known (deluge_sim (JArr [JStr ''Label'']) (example_torrents ''Seeding''))"
       and s = "example_session (JArr [JStr ''Label''])" and torrenthash = "''c0ffee''"]
    setLabel_creates_label_once
    [where srv = "deluge_sim (JArr [JStr ''Label'']) (example_torrents ''Seeding'')"
       and s = "example_session (JArr [JStr ''Label''])" and torrenthash = "''c0ffee''"]
    responsive_answers [OF label_never_known_responsive [OF deluge_sim_responsive]]
    responsive_answers [OF deluge_sim_responsive]
    label_never_known_unknown
    deluge_sim_unknown_until_added
      [of "posted (example_session (JArr [JStr ''Label'']))" "example_torrents ''Seeding''"]
  by (simp add: example_session_eq can_log_in_def)

text \<open>\<open>setLabel\<close> returns \<^verbatim>\<open>false\<close> only when the field \<open>enLabeled\<close> has never been assigned,
  whatever the plugin list was.\<close>

lemma setLabel_false_iff: "fst (setLabel srv t s) = Inr False \<longleftrightarrow> enLabeled s = None"
  by (simp add: setLabel_def split: prod.splits sum.splits)

text \<open>
  C5 does not hold of the code. After \<^verbatim>\<open>validateConfig\<close> on a client whose enabled plugins
  do not include "Label", the promise stored in \<open>enLabeled\<close> is fulfilled with \<^verbatim>\<open>false\<close>, yet
  \<open>setLabel\<close> posts a label-set and returns \<^verbatim>\<open>true\<close>.
\<close>

theorem setLabel_ignores_plugin_list:
  "enLabeled (example_session (JArr [])) = Some (Inr False) \<and>
   fst (setLabel (deluge_sim (JArr []) (example_torrents ''Seeding'')) ''c0ffee''
          (example_session (JArr []))) = Inr True \<and>
   map req_method
     (new_posts (example_session (JArr []))
        (snd (setLabel (deluge_sim (JArr []) (example_torrents ''Seeding'')) ''c0ffee''
                (example_session (JArr [])))))
   = [''label.set_torrent'']"
  by (simp add: example_session_eq setLabel_def sendCall_def call_def reply_value_def
      deluge_sim_def rpc_result_def rpc_error_def new_posts_def Let_def)

text \<open>\<open>setLabel\<close> only ever adds to the trace, and only logins and label requests.\<close>

lemma setLabel_state:
  "snd (setLabel srv t s) = s \<or>
   snd (setLabel srv t s) =
     snd (sendCall srv ''label.set_torrent'' [JStr t, JStr (delugeLabel s)] s) \<or>
   (\<exists>s1 s2. s1 = snd (sendCall srv ''label.set_torrent'' [JStr t, JStr (delugeLabel s)] s) \<and>
            s2 = snd (sendCall srv ''label.add'' [JStr (delugeLabel s1)] s1) \<and>
            (snd (setLabel srv t s) = s2 \<or>
             snd (setLabel srv t s) =
               snd (sendCall srv ''label.set_torrent'' [JStr t, JStr (delugeLabel s2)] s2)))"
proof -
  obtain a1 s1 where c1: "sendCall srv ''label.set_torrent'' [JStr t, JStr (delugeLabel s)] s = (a1, s1)"
    by (cases "sendCall srv ''label.set_torrent'' [JStr t, JStr (delugeLabel s)] s")
  obtain a2 s2 where c2: "sendCall srv ''label.add'' [JStr (delugeLabel s1)] s1 = (a2, s2)"
    by (cases "sendCall srv ''label.add'' [JStr (delugeLabel s1)] s1")
  obtain a3 s3 where c3: "sendCall srv ''label.set_torrent'' [JStr t, JStr (delugeLabel s2)] s2 = (a3, s3)"
    by (cases "sendCall srv ''label.set_torrent'' [JStr t, JStr (delugeLabel s2)] s2")
  have "snd (setLabel srv t s) \<in> {s, s1, s2, s3}"
    by (simp add: setLabel_def c1 c2 c3 split: sum.splits)
  with c1 c2 c3 show ?thesis by auto
qed

lemma setLabel_trace:
  "\<exists>extra. posted (snd (setLabel srv t s)) = posted s @ extra \<and>
     (\<forall>x \<in> set extra. req_method x = ''auth.login'' \<or> req_method x = ''label.set_torrent'' \<or>
                      req_method x = ''label.add'')"
proof -
  let ?s1 = "snd (sendCall srv ''label.set_torrent'' [JStr t, JStr (delugeLabel s)] s)"
  let ?s2 = "snd (sendCall srv ''label.add'' [JStr (delugeLabel ?s1)] ?s1)"
  let ?s3 = "snd (sendCall srv ''label.set_torrent'' [JStr t, JStr (delugeLabel ?s2)] ?s2)"
  let ?ok = "\<lambda>x. req_method x = ''auth.login'' \<or> req_method x = ''label.set_torrent'' \<or>
                      req_method x = ''label.add''"
  from sendCall_trace [of srv "''label.set_torrent''" "[JStr t, JStr (delugeLabel s)]" s]
  obtain e1 where e1: "posted ?s1 = posted s @ e1" "\<forall>x \<in> set e1. ?ok x" by auto
  from sendCall_trace [of srv "''label.add''" "[JStr (delugeLabel ?s1)]" ?s1]
  obtain e2 where e2: "posted ?s2 = posted ?s1 @ e2" "\<forall>x \<in> set e2. ?ok x" by auto
  from sendCall_trace [of srv "''label.set_torrent''" "[JStr t, JStr (delugeLabel ?s2)]" ?s2]
  obtain e3 where e3: "posted ?s3 = posted ?s2 @ e3" "\<forall>x \<in> set e3. ?ok x" by auto
  have a0: "posted s = posted s @ [] \<and> (\<forall>x \<in> set []. ?ok x)" by simp
  have a1: "posted ?s1 = posted s @ e1 \<and> (\<forall>x \<in> set e1. ?ok x)" using e1 by simp
  have a2: "posted ?s2 = posted s @ (e1 @ e2) \<and> (\<forall>x \<in> set (e1 @ e2). ?ok x)"
    using e1 e2 by auto
  have a3: "posted ?s3 = posted s @ (e1 @ e2 @ e3) \<and> (\<forall>x \<in> set (e1 @ e2 @ e3). ?ok x)"
    using e1 e2 e3 by auto
  from setLabel_state [of srv t s]
  consider "snd (setLabel srv t s) = s" | "snd (setLabel srv t s) = ?s1"
    | "snd (setLabel srv t s) = ?s2" | "snd (setLabel srv t s) = ?s3"
    by auto
  then show ?thesis
  proof cases
    case 1 with a0 show ?thesis by metis
  next
    case 2 with a1 show ?thesis by metis
  next
    case 3 with a2 show ?thesis by metis
  next
    case 4 with a3 show ?thesis by metis
  qed
qed

lemma setLabel_can_log_in:
  assumes "can_log_in srv s"
  shows "can_log_in srv (snd (setLabel srv t s))"
proof -
  let ?s1 = "snd (sendCall srv ''label.set_torrent'' [JStr t, JStr (delugeLabel s)] s)"
  let ?s2 = "snd (sendCall srv ''label.add'' [JStr (delugeLabel ?s1)] ?s1)"
  let ?s3 = "snd (sendCall srv ''label.set_torrent'' [JStr t, JStr (delugeLabel ?s2)] ?s2)"
  have 1: "can_log_in srv ?s1" using assms by (rule sendCall_can_log_in)
  then have 2: "can_log_in srv ?s2" by (rule sendCall_can_log_in)
  then have 3: "can_log_in srv ?s3" by (rule sendCall_can_log_in)
  from setLabel_state [of srv t s]
  consider "snd (setLabel srv t s) = s" | "snd (setLabel srv t s) = ?s1"
    | "snd (setLabel srv t s) = ?s2" | "snd (setLabel srv t s) = ?s3"
    by auto
  then show ?thesis using assms 1 2 3 by cases simp_all
qed

lemma setLabel_unhandled: "unhandled (snd (setLabel srv t s)) = unhandled s"
proof -
  let ?s1 = "snd (sendCall srv ''label.set_torrent'' [JStr t, JStr (delugeLabel s)] s)"
  let ?s2 = "snd (sendCall srv ''label.add'' [JStr (delugeLabel ?s1)] ?s1)"
  let ?s3 = "snd (sendCall srv ''label.set_torrent'' [JStr t, JStr (delugeLabel ?s2)] ?s2)"
  have 1: "unhandled ?s1 = unhandled s" by (rule sendCall_unhandled)
  have 2: "unhandled ?s2 = unhandled s" by (simp add: sendCall_unhandled)
  have 3: "unhandled ?s3 = unhandled s" by (simp add: sendCall_unhandled)
  from setLabel_state [of srv t s]
  consider "snd (setLabel srv t s) = s" | "snd (setLabel srv t s) = ?s1"
    | "snd (setLabel srv t s) = ?s2" | "snd (setLabel srv t s) = ?s3"
    by auto
  then show ?thesis using 1 2 3 by cases simp_all
qed

section \<open>The completion check\<close>

text \<open>\<open>checkCompleted\<close> leaves the object as its one \<open>sendCall\<close> leaves it.\<close>

lemma checkCompleted_state:
  "snd (checkCompleted srv infohash s) =
     snd (sendCall srv ''web.update_ui''
            [JArr [JStr ''name'', JStr ''state'', JStr ''save_path''], JArr []] s)"
  by (simp add: checkCompleted_def Let_def split: prod.splits sum.splits)

lemma checkCompleted_trace:
  "\<exists>extra. posted (snd (checkCompleted srv infohash s)) = posted s @ extra \<and>
     (\<forall>x \<in> set extra. req_method x = ''auth.login'' \<or> req_method x = ''web.update_ui'')"
  using sendCall_trace [of srv "''web.update_ui''"
      "[JArr [JStr ''name'', JStr ''state'', JStr ''save_path''], JArr []]" s]
  by (auto simp: checkCompleted_state)

lemma checkCompleted_reported:
  assumes sess: "can_log_in srv s"
    and rep: "\<forall>h req. req_method req = ''web.update_ui'' \<longrightarrow>
               (\<exists>r st. srv h req = Some r \<and> reports_state (data r) infohash st \<and>
                        loose_eq_word st ''Seeding'' = b)"
  shows "fst (checkCompleted srv infohash s) = Inr (if b then Some True else None)"
proof -
  let ?ps = "[JArr [JStr ''name'', JStr ''state'', JStr ''save_path''], JArr []]"
  from sendCall_outcome [OF sess, of "''web.update_ui''" ?ps]
  obtain pre req s1 where
    c: "sendCall srv ''web.update_ui'' ?ps s = (reply_value (srv (posted s @ pre) req), s1)"
    and m: "req_method req = ''web.update_ui''"
    by blast
  from rep m obtain r st where r: "srv (posted s @ pre) req = Some r"
    and "reports_state (data r) infohash st" "loose_eq_word st ''Seeding'' = b"
    by blast
  with reply_value_reports_state [of r infohash st]
  have "reply_value (Some r) = Inr (data r)" "torrent_state (data r) infohash = Inr st"
    "loose_eq_word st ''Seeding'' = b" by auto
  with c r show ?thesis by (simp add: checkCompleted_def Let_def)
qed

lemma checkCompleted_can_log_in:
  "can_log_in srv s \<Longrightarrow> can_log_in srv (snd (checkCompleted srv infohash s))"
  by (simp add: checkCompleted_state sendCall_can_log_in)

lemma checkCompleted_unhandled:
  "unhandled (snd (checkCompleted srv infohash s)) = unhandled s"
  by (simp add: checkCompleted_state sendCall_unhandled)

lemma checkCompleted_listed:
  assumes resp: "responsive srv" and listed: "lists_state srv infohash"
  shows "\<exists>c. fst (checkCompleted srv infohash s) = Inr c"
proof -
  let ?ps = "[JArr [JStr ''name'', JStr ''state'', JStr ''save_path''], JArr []]"
  from sendCall_responsive [OF resp, of "''web.update_ui''" ?ps s]
  obtain pre req r v s1 where
    c: "sendCall srv ''web.update_ui'' ?ps s = (Inr v, s1)"
    and v: "reply_value (Some r) = Inr v"
    and r: "srv (posted s @ pre) req = Some r"
    and m: "req_method req = ''web.update_ui''"
    by blast
  from listed m obtain r' st where "srv (posted s @ pre) req = Some r'"
    "reports_state (data r') infohash st"
    unfolding lists_state_def by blast
  with r have "reports_state (data r) infohash st" by simp
  with reply_value_reports_state [of r infohash st] v
  have "torrent_state v infohash = Inr st" by auto
  with c show ?thesis by (simp add: checkCompleted_def Let_def)
qed

text \<open>The \<^verbatim>\<open>catch\<close> block never reaches its \<^verbatim>\<open>return false\<close>.\<close>

lemma checkCompleted_never_false: "fst (checkCompleted srv infohash s) \<noteq> Inr (Some False)"
  by (simp add: checkCompleted_def torrent_state_def Let_def split: prod.splits sum.splits)

text \<open>
  C10 does not hold of the code. When the info hash is absent from the client's status
  reply, \<open>checkCompleted\<close> does not return \<^verbatim>\<open>false\<close>: the \<^verbatim>\<open>catch\<close> block throws a
  \<^verbatim>\<open>TypeError\<close> of its own while it builds its log message.
\<close>

theorem checkCompleted_lookup_failure_faults:
  "fst (checkCompleted (deluge_sim (JArr [JStr ''Label'']) (example_torrents ''Seeding''))
          ''ffff'' (example_session (JArr [JStr ''Label'']))) = Inl TypeError"
  by (simp add: example_session_eq checkCompleted_def sendCall_def call_def reply_value_def
      deluge_sim_def rpc_result_def torrent_state_def example_torrents_def Let_def)

section \<open>The injector\<close>

lemma submitted_append: "submitted ps (a @ b) = (submitted ps a \<or> submitted ps b)"
  by (auto simp: submitted_def)

lemma not_submitted_others:
  "\<forall>x \<in> set b. req_method x \<noteq> ''core.add_torrent_file'' \<Longrightarrow> \<not> submitted ps b"
  by (auto simp: submitted_def)

text \<open>The completion check of \<open>inject\<close> when the client reports the source as seeding.\<close>

lemma check_passes:
  assumes sess: "can_log_in srv s"
    and seeding: "truthy_opt_string (infoHash se) \<longrightarrow> reports_seeding srv (the (infoHash se))"
  shows "\<exists>s1 extra.
           (if truthy_opt_string (infoHash se)
            then checkCompleted srv (the (infoHash se)) s = (Inr (Some True), s1) else s1 = s) \<and>
           posted s1 = posted s @ extra \<and>
           (\<forall>x \<in> set extra. req_method x \<noteq> ''core.add_torrent_file'') \<and>
           can_log_in srv s1 \<and> unhandled s1 = unhandled s"
proof (cases "truthy_opt_string (infoHash se)")
  case True
  with seeding have "\<forall>h req. req_method req = ''web.update_ui'' \<longrightarrow>
               (\<exists>r st. srv h req = Some r \<and> reports_state (data r) (the (infoHash se)) st \<and>
                        loose_eq_word st ''Seeding'' = True)"
    by (simp add: reports_seeding_def)
  from checkCompleted_reported [OF sess this]
  have f: "fst (checkCompleted srv (the (infoHash se)) s) = Inr (Some True)" by simp
  from checkCompleted_trace [of srv "the (infoHash se)" s] obtain extra where
    "posted (snd (checkCompleted srv (the (infoHash se)) s)) = posted s @ extra"
    "\<forall>x \<in> set extra. req_method x = ''auth.login'' \<or> req_method x = ''web.update_ui''"
    by blast
  then have "posted (snd (checkCompleted srv (the (infoHash se)) s)) = posted s @ extra \<and>
    (\<forall>x \<in> set extra. req_method x \<noteq> ''core.add_torrent_file'')" by auto
  with f True checkCompleted_can_log_in [OF sess, of "the (infoHash se)"]
    checkCompleted_unhandled [of srv "the (infoHash se)" s]
  show ?thesis
    by (cases "checkCompleted srv (the (infoHash se)) s") auto
next
  case False
  with sess show ?thesis by simp
qed

lemma inject_accepted:
  assumes "if truthy_opt_string (infoHash se)
            then checkCompleted srv (the (infoHash se)) s = (Inr (Some True), s1) else s1 = s"
    and "sendCall srv ''core.add_torrent_file''
           (formatData cfg (metafile_name nt @ ''.cross-seed.torrent'') (metafile_base64 nt) dl) s1
         = (Inr v, s2)"
    and "get_prop v ''result'' = Inr res" and "truthy res"
  shows "inject cfg srv nt se dl s =
           (Inr SUCCESS,
            (snd (setLabel srv (metafile_infoHash nt) s2))
              \<lparr>unhandled := unhandled (snd (setLabel srv (metafile_infoHash nt) s2)) @
                              rejection (fst (setLabel srv (metafile_infoHash nt) s2))\<rparr>)"
  using assms
  by (cases "truthy_opt_string (infoHash se)") (simp_all add: inject_def split: prod.splits)

lemma inject_refused:
  assumes "if truthy_opt_string (infoHash se)
            then checkCompleted srv (the (infoHash se)) s = (Inr (Some True), s1) else s1 = s"
    and "sendCall srv ''core.add_torrent_file''
           (formatData cfg (metafile_name nt @ ''.cross-seed.torrent'') (metafile_base64 nt) dl) s1
         = (Inr v, s2)"
    and "get_prop v ''result'' = Inr res" and "\<not> truthy res"
    and "get_prop v ''message'' = Inr m" and "truthy m" and "js_includes m ''already'' = Inr True"
  shows "inject cfg srv nt se dl s = (Inr ALREADY_EXISTS, s2)"
  using assms
  by (cases "truthy_opt_string (infoHash se)") (simp_all add: inject_def)

text \<open>
  C3. For every searchee that carries an \<^verbatim>\<open>infoHash\<close>, if the client reports the state of
  that torrent as anything other than "Seeding" (the status call getting through: the
  session is authenticated, or the client answers a login), \<open>inject\<close> returns
  \<open>TORRENT_NOT_COMPLETE\<close> and none of the requests it has posted is a submission
  (\<^verbatim>\<open>core.add_torrent_file\<close>).
\<close>

theorem inject_source_not_complete:
  assumes hash: "truthy_opt_string (infoHash se)"
    and sess: "can_log_in srv s"
    and unfinished: "reports_unfinished srv (the (infoHash se))"
  shows "\<exists>s'. inject cfg srv nt se dl s = (Inr TORRENT_NOT_COMPLETE, s') \<and>
              (\<forall>x \<in> set (new_posts s s'). req_method x \<noteq> ''core.add_torrent_file'')"
proof -
  from unfinished have "\<forall>h req. req_method req = ''web.update_ui'' \<longrightarrow>
               (\<exists>r st. srv h req = Some r \<and> reports_state (data r) (the (infoHash se)) st \<and>
                        loose_eq_word st ''Seeding'' = False)"
    by (simp add: reports_unfinished_def)
  from checkCompleted_reported [OF sess this]
  have f: "fst (checkCompleted srv (the (infoHash se)) s) = Inr None" by simp
  obtain s' where c: "checkCompleted srv (the (infoHash se)) s = (Inr None, s')"
    using f by (cases "checkCompleted srv (the (infoHash se)) s") auto
  from checkCompleted_trace [of srv "the (infoHash se)" s] c obtain extra where
    "posted s' = posted s @ extra"
    "\<forall>x \<in> set extra. req_method x = ''auth.login'' \<or> req_method x = ''web.update_ui''"
    by auto
  then have "\<forall>x \<in> set (new_posts s s'). req_method x \<noteq> ''core.add_torrent_file''"
    by (auto simp: new_posts_def)
  moreover from hash c have "inject cfg srv nt se dl s = (Inr TORRENT_NOT_COMPLETE, s')"
    by (simp add: inject_def)
  ultimately show ?thesis by blast
qed

text \<open>The example searchee, its torrent still downloading, on a new object.\<close>

theorem inject_source_not_complete_witness:
  "truthy_opt_string (infoHash (example_searchee (Some ''abc123''))) \<and>
   can_log_in (deluge_sim (JArr [JStr ''Label'']) (example_torrents ''Downloading''))
     (new_Deluge example_config) \<and>
   reports_unfinished (deluge_sim (JArr [JStr ''Label'']) (example_torrents ''Downloading''))
     (the (infoHash (example_searchee (Some ''abc123'')))) \<and>
   (\<exists>s'. inject example_config
            (deluge_sim (JArr [JStr ''Label'']) (example_torrents ''Downloading''))
            example_metafile (example_searchee (Some ''abc123'')) None
            (new_Deluge example_config) = (Inr TORRENT_NOT_COMPLETE, s') \<and>
         (\<forall>x \<in> set (new_posts (new_Deluge example_config) s').
            req_method x \<noteq> ''core.add_torrent_file''))"
  using inject_source_not_complete
    [where srv = "deluge_sim (JArr [JStr ''Label'']) (example_torrents ''Downloading'')"
       and cfg = example_config and nt = example_metafile and dl = None
       and s = "new_Deluge example_config"
       and se = "example_searchee (Some ''abc123'')"]
    deluge_sim_reports_unfinished
    responsive_can_log_in [OF deluge_sim_responsive,
      of "JArr [JStr ''Label'']" "example_torrents ''Downloading''" "new_Deluge example_config"]
  by (simp add: example_searchee_def truthy_opt_string_def)

text \<open>
  Two injections in a row, as far as their values go. If the calls get through (the
  session is authenticated, or the client answers a login), the client accepts the first
  submission of the torrent and answers a repeated one with an "already" error message,
  and it reports the source as seeding when the searchee carries an \<^verbatim>\<open>infoHash\<close>, then
  the first \<open>inject\<close> returns \<open>SUCCESS\<close> and the second, from the state the first one left,
  returns \<open>ALREADY_EXISTS\<close>. The only unhandled rejection the two calls can leave is that
  of the label call of the first: \<open>t\<close> is the state in which it is started.
\<close>

lemma inject_twice_values:
  assumes sess: "can_log_in srv s"
    and once: "accepts_once srv
                 (formatData cfg (metafile_name nt @ ''.cross-seed.torrent'') (metafile_base64 nt) dl)"
    and fresh: "\<not> submitted
                 (formatData cfg (metafile_name nt @ ''.cross-seed.torrent'') (metafile_base64 nt) dl)
                 (posted s)"
    and seeding: "truthy_opt_string (infoHash se) \<longrightarrow> reports_seeding srv (the (infoHash se))"
  shows "\<exists>t s1 s2. inject cfg srv nt se dl s = (Inr SUCCESS, s1) \<and>
                 inject cfg srv nt se dl s1 = (Inr ALREADY_EXISTS, s2) \<and>
                 unhandled s2 =
                   unhandled s @ rejection (fst (setLabel srv (metafile_infoHash nt) t))"
proof -
  let ?ps = "formatData cfg (metafile_name nt @ ''.cross-seed.torrent'') (metafile_base64 nt) dl"
  \<comment> \<open>first call\<close>
  from check_passes [OF sess seeding] obtain t1 x1 where
    k1: "if truthy_opt_string (infoHash se)
            then checkCompleted srv (the (infoHash se)) s = (Inr (Some True), t1) else t1 = s"
    and p1: "posted t1 = posted s @ x1"
    and n1: "\<forall>x \<in> set x1. req_method x \<noteq> ''core.add_torrent_file''"
    and g1: "can_log_in srv t1"
    and u1: "unhandled t1 = unhandled s"
    by blast
  from sendCall_outcome [OF g1, of "''core.add_torrent_file''" ?ps]
  obtain pre1 req1 t2 where
    c1: "sendCall srv ''core.add_torrent_file'' ?ps t1
           = (reply_value (srv (posted t1 @ pre1) req1), t2)"
    and q1: "posted t2 = posted t1 @ pre1 @ [req1]"
    and m1: "req_method req1 = ''core.add_torrent_file''" "req_params req1 = ?ps"
    and l1: "\<forall>x \<in> set pre1. req_method x = ''auth.login''"
    by blast
  from l1 have "\<forall>x \<in> set pre1. req_method x \<noteq> ''core.add_torrent_file''" by auto
  with fresh n1 have "\<not> submitted ?ps (posted t1 @ pre1)"
    by (simp add: p1 submitted_append not_submitted_others)
  with once m1 obtain r1 where r1: "srv (posted t1 @ pre1) req1 = Some r1" "accepts (data r1)"
    unfolding accepts_once_def by metis
  from reply_value_accepts [OF r1(2)] obtain res1 where
    v1: "reply_value (Some r1) = Inr (data r1)"
    and "get_prop (data r1) ''result'' = Inr res1" "truthy res1" by auto
  from c1 r1(1) v1 have "sendCall srv ''core.add_torrent_file'' ?ps t1 = (Inr (data r1), t2)"
    by simp
  let ?l = "setLabel srv (metafile_infoHash nt) t2"
  let ?s1 = "(snd ?l)\<lparr>unhandled := unhandled (snd ?l) @ rejection (fst ?l)\<rparr>"
  from inject_accepted [OF k1 \<open>sendCall srv ''core.add_torrent_file'' ?ps t1 = (Inr (data r1), t2)\<close>
      \<open>get_prop (data r1) ''result'' = Inr res1\<close> \<open>truthy res1\<close>]
  have i1: "inject cfg srv nt se dl s = (Inr SUCCESS, ?s1)" .
  from c1 have t2: "t2 = snd (sendCall srv ''core.add_torrent_file'' ?ps t1)" by simp
  with g1 have "can_log_in srv t2" by (simp add: sendCall_can_log_in)
  then have "can_log_in srv (snd ?l)" by (rule setLabel_can_log_in)
  then have g2: "can_log_in srv ?s1" by simp
  from t2 u1 have "unhandled t2 = unhandled s" by (simp add: sendCall_unhandled)
  then have u2: "unhandled ?s1 = unhandled s @ rejection (fst ?l)"
    by (simp add: setLabel_unhandled)
  from setLabel_trace [of srv "metafile_infoHash nt" t2] obtain x2 where
    "posted (snd ?l) = posted t2 @ x2" by blast
  with q1 m1 have sub: "submitted ?ps (posted ?s1)"
    by (auto simp: submitted_def)
  \<comment> \<open>second call\<close>
  from check_passes [OF g2 seeding] obtain t3 x3 where
    k2: "if truthy_opt_string (infoHash se)
            then checkCompleted srv (the (infoHash se)) ?s1 = (Inr (Some True), t3) else t3 = ?s1"
    and p3: "posted t3 = posted ?s1 @ x3"
    and g3: "can_log_in srv t3"
    and u3: "unhandled t3 = unhandled ?s1"
    by blast
  from sendCall_outcome [OF g3, of "''core.add_torrent_file''" ?ps]
  obtain pre2 req2 t4 where
    c2: "sendCall srv ''core.add_torrent_file'' ?ps t3
           = (reply_value (srv (posted t3 @ pre2) req2), t4)"
    and m2: "req_method req2 = ''core.add_torrent_file''" "req_params req2 = ?ps"
    by blast
  from sub have "submitted ?ps (posted t3 @ pre2)" by (simp add: p3 submitted_append)
  with once m2 obtain r2 where r2: "srv (posted t3 @ pre2) req2 = Some r2"
    "refuses_with ''already'' (data r2)"
    unfolding accepts_once_def by metis
  from reply_value_refuses_with [OF r2(2)] obtain e res2 m where
    v2: "reply_value (Some r2) = Inr e"
    and f2: "get_prop e ''result'' = Inr res2" "\<not> truthy res2"
      "get_prop e ''message'' = Inr m" "truthy m" "js_includes m ''already'' = Inr True"
    by blast
  from c2 r2(1) v2 have c2': "sendCall srv ''core.add_torrent_file'' ?ps t3 = (Inr e, t4)" by simp
  from inject_refused [OF k2 c2' f2]
  have i2: "inject cfg srv nt se dl ?s1 = (Inr ALREADY_EXISTS, t4)" .
  from c2 have "t4 = snd (sendCall srv ''core.add_torrent_file'' ?ps t3)" by simp
  with u3 u2 have "unhandled t4 = unhandled s @ rejection (fst ?l)"
    by (simp add: sendCall_unhandled)
  with i1 i2 show ?thesis by blast
qed

lemma jsonrpc_body_defined: "jsonrpc_body d \<Longrightarrow> d \<noteq> JNull \<and> d \<noteq> JUndefined"
  by (cases d) (simp_all add: jsonrpc_body_def)

lemma jsonrpc_responsive: "jsonrpc_client srv \<Longrightarrow> responsive srv"
  unfolding jsonrpc_client_def responsive_def
  using jsonrpc_body_defined by blast

lemma reply_value_jsonrpc:
  assumes "jsonrpc_body (data r)"
  shows "\<exists>v res. reply_value (Some r) = Inr v \<and> get_prop v ''result'' = Inr res \<and> message_ok v"
proof -
  from assms obtain kvs where d: "data r = JObj kvs" by (cases "data r") (simp_all add: jsonrpc_body_def)
  show ?thesis
  proof (cases "map_of kvs ''error''")
    case None
    with assms d show ?thesis by (simp add: jsonrpc_body_def)
  next
    case (Some e)
    with assms d show ?thesis
      by (cases e) (simp_all add: jsonrpc_body_def reply_value_def)
  qed
qed

lemma includes_message_ok:
  "message_ok v \<Longrightarrow> get_prop v ''message'' = Inr m \<Longrightarrow> truthy m \<Longrightarrow> \<exists>b. js_includes m w = Inr b"
  by (cases m) (simp_all add: message_ok_def)

lemma inject_returns:
  assumes k: "if truthy_opt_string (infoHash se)
            then checkCompleted srv (the (infoHash se)) s = (Inr (Some True), s1) else s1 = s"
    and c: "sendCall srv ''core.add_torrent_file''
           (formatData cfg (metafile_name nt @ ''.cross-seed.torrent'') (metafile_base64 nt) dl) s1
         = (Inr v, s2)"
    and res: "get_prop v ''result'' = Inr res" and ok: "message_ok v"
  shows "\<exists>r s'. inject cfg srv nt se dl s = (Inr r, s')"
proof (cases "truthy res")
  case True
  from inject_accepted [OF k c res True] show ?thesis by blast
next
  case False
  from ok obtain m where m: "get_prop v ''message'' = Inr m"
    by (cases "get_prop v ''message''") (simp_all add: message_ok_def)
  show ?thesis
  proof (cases "truthy m")
    case True
    from includes_message_ok [OF ok m True] obtain b where "js_includes m ''already'' = Inr b"
      by blast
    with k c res False m True show ?thesis
      by (cases "truthy_opt_string (infoHash se)") (simp_all add: inject_def)
  next
    case nm: False
    with k c res False m show ?thesis
      by (cases "truthy_opt_string (infoHash se)") (simp_all add: inject_def)
  qed
qed

lemma InjectionResult_values:
  "r \<in> {SUCCESS, ALREADY_EXISTS, TORRENT_NOT_COMPLETE, FAILURE}"
  by (cases r) simp_all

text \<open>Against a client that answers every request with a JSON-RPC body, \<open>setLabel\<close> does
  not fault, so that the two injections leave no unhandled rejection.\<close>

lemma setLabel_jsonrpc:
  assumes j: "jsonrpc_client srv"
  shows "\<exists>b. fst (setLabel srv t s) = Inr b"
proof (cases "enLabeled s = None")
  case True
  then have "fst (setLabel srv t s) = Inr False" by (simp add: setLabel_def)
  then show ?thesis by (rule exI)
next
  case False
  from j have resp: "responsive srv" by (rule jsonrpc_responsive)
  from sendCall_responsive [OF resp, of "''label.set_torrent''"
      "[JStr t, JStr (delugeLabel s)]" s]
  obtain pre1 req1 r1 v1 s1 where
    c1: "sendCall srv ''label.set_torrent'' [JStr t, JStr (delugeLabel s)] s = (Inr v1, s1)"
    and v1: "reply_value (Some r1) = Inr v1"
    and r1: "srv (posted s @ pre1) req1 = Some r1"
    by blast
  from j obtain r' where "srv (posted s @ pre1) req1 = Some r'" "jsonrpc_body (data r')"
    unfolding jsonrpc_client_def by blast
  with r1 have "jsonrpc_body (data r1)" by simp
  from reply_value_jsonrpc [OF this] v1 have ok: "message_ok v1" by auto
  then obtain m where m: "get_prop v1 ''message'' = Inr m"
    by (cases "get_prop v1 ''message''") (simp_all add: message_ok_def)
  show ?thesis
  proof (cases "truthy m")
    case nm: False
    with False c1 m show ?thesis by (auto simp: setLabel_def)
  next
    case True
    from includes_message_ok [OF ok m True] obtain u where
      u: "js_includes m ''Unknown Label'' = Inr u" by blast
    show ?thesis
    proof (cases u)
      case known: False
      with False c1 m True u show ?thesis by (auto simp: setLabel_def)
    next
      case unknown: True
      from sendCall_responsive [OF resp, of "''label.add''" "[JStr (delugeLabel s1)]" s1]
      obtain v2 s2 where
        c2: "sendCall srv ''label.add'' [JStr (delugeLabel s1)] s1 = (Inr v2, s2)" by blast
      from sendCall_responsive [OF resp, of "''label.set_torrent''"
          "[JStr t, JStr (delugeLabel s2)]" s2]
      obtain v3 s3 where
        c3: "sendCall srv ''label.set_torrent'' [JStr t, JStr (delugeLabel s2)] s2 = (Inr v3, s3)"
        by blast
      from False c1 m True u unknown c2 c3 show ?thesis by (auto simp: setLabel_def)
    qed
  qed
qed

lemma inject_twice_answered:
  assumes j: "jsonrpc_client srv"
    and once: "accepts_once srv
                 (formatData cfg (metafile_name nt @ ''.cross-seed.torrent'') (metafile_base64 nt) dl)"
    and fresh: "\<not> submitted
                 (formatData cfg (metafile_name nt @ ''.cross-seed.torrent'') (metafile_base64 nt) dl)
                 (posted s)"
    and seeding: "truthy_opt_string (infoHash se) \<longrightarrow> reports_seeding srv (the (infoHash se))"
  shows "\<exists>s1 s2. inject cfg srv nt se dl s = (Inr SUCCESS, s1) \<and>
                 inject cfg srv nt se dl s1 = (Inr ALREADY_EXISTS, s2) \<and>
                 unhandled s2 = unhandled s"
proof -
  from j have "can_log_in srv s" by (simp add: jsonrpc_responsive responsive_can_log_in)
  from inject_twice_values [OF this once fresh seeding] obtain t s1 s2 where
    i: "inject cfg srv nt se dl s = (Inr SUCCESS, s1)"
      "inject cfg srv nt se dl s1 = (Inr ALREADY_EXISTS, s2)"
    and u: "unhandled s2 = unhandled s @ rejection (fst (setLabel srv (metafile_infoHash nt) t))"
    by blast
  from setLabel_jsonrpc [OF j, of "metafile_infoHash nt" t] obtain b where
    "fst (setLabel srv (metafile_infoHash nt) t) = Inr b" by blast
  with u have "unhandled s2 = unhandled s" by (simp add: rejection_def)
  with i show ?thesis by blast
qed

text \<open>The simulated client is such a client.\<close>

lemma inject_twice_answered_example:
  "\<exists>s1 s2.
      inject example_config (deluge_sim (JArr [JStr ''Label'']) (example_torrents ''Seeding''))
        example_metafile (example_searchee (Some ''abc123'')) (Some ''/d'')
        (example_session (JArr [JStr ''Label''])) = (Inr SUCCESS, s1) \<and>
      inject example_config (deluge_sim (JArr [JStr ''Label'']) (example_torrents ''Seeding''))
        example_metafile (example_searchee (Some ''abc123'')) (Some ''/d'') s1
        = (Inr ALREADY_EXISTS, s2) \<and>
      unhandled s2 = unhandled (example_session (JArr [JStr ''Label'']))"
  using inject_twice_answered
    [where srv = "deluge_sim (JArr [JStr ''Label'']) (example_torrents ''Seeding'')"
       and cfg = example_config and nt = example_metafile and dl = "Some ''/d''"
       and s = "example_session (JArr [JStr ''Label''])"
       and se = "example_searchee (Some ''abc123'')"]
    deluge_sim_jsonrpc deluge_sim_accepts_once deluge_sim_reports_seeding
  by (simp add: example_session_eq submitted_def example_searchee_def truthy_opt_string_def)

text \<open>
  C1 does not hold of the code. The client of the example accepts the first submission
  of the torrent and answers the second with the error message "Torrent already in
  session", and the two calls of \<open>inject\<close> return \<open>SUCCESS\<close> and \<open>ALREADY_EXISTS\<close>. But the
  post of the label-set of the first call fails, \<open>sendCall\<close> faults on the missing
  response, and the rejection of the \<open>setLabel\<close> that \<open>inject\<close> started without awaiting or
  catching it is left unhandled: there was none before the first call and there is one,
  a \<^verbatim>\<open>TypeError\<close>, after it.
\<close>

theorem inject_leaves_unhandled_rejection:
  "unhandled (example_session (JArr [JStr ''Label''])) = [] \<and>
   fst (inject example_config
          (label_no_reply (deluge_sim (JArr [JStr ''Label'']) (example_torrents ''Seeding'')))
          example_metafile (example_searchee (Some ''abc123'')) (Some ''/d'')
          (example_session (JArr [JStr ''Label''])))
     = Inr SUCCESS \<and>
   unhandled
     (snd (inject example_config
             (label_no_reply (deluge_sim (JArr [JStr ''Label'']) (example_torrents ''Seeding'')))
             example_metafile (example_searchee (Some ''abc123'')) (Some ''/d'')
             (example_session (JArr [JStr ''Label'']))))
     = [TypeError] \<and>
   map req_method
     (new_posts (example_session (JArr [JStr ''Label'']))
        (snd (inject example_config
                (label_no_reply (deluge_sim (JArr [JStr ''Label'']) (example_torrents ''Seeding'')))
                example_metafile (example_searchee (Some ''abc123'')) (Some ''/d'')
                (example_session (JArr [JStr ''Label''])))))
     = [''web.update_ui'', ''core.add_torrent_file'', ''label.set_torrent''] \<and>
   fst (inject example_config
          (label_no_reply (deluge_sim (JArr [JStr ''Label'']) (example_torrents ''Seeding'')))
          example_metafile (example_searchee (Some ''abc123'')) (Some ''/d'')
          (snd (inject example_config
                  (label_no_reply (deluge_sim (JArr [JStr ''Label'']) (example_torrents ''Seeding'')))
                  example_metafile (example_searchee (Some ''abc123'')) (Some ''/d'')
                  (example_session (JArr [JStr ''Label''])))))
     = Inr ALREADY_EXISTS"
  by (simp add: example_session_eq inject_def checkCompleted_def setLabel_def sendCall_def call_def
      reply_value_def label_no_reply_def deluge_sim_def rpc_result_def rpc_error_def
      torrent_state_def example_torrents_def example_searchee_def example_metafile_def
      example_config_def formatData_def submitted_def truthy_opt_string_def rejection_def
      new_posts_def Let_def)

text \<open>
  C2, as stated, fails: when the client cannot be reached, \<open>inject\<close> on a new object does
  not return a value; the login raises \<^verbatim>\<open>CrossSeedError\<close>.
\<close>

theorem inject_unreachable_counterexample:
  "fst (inject example_config no_reply example_metafile (example_searchee None) None
          (new_Deluge example_config))
   = Inl (CrossSeedError ''Could not reach deluge: http://localhost:8112'')"
  by (simp add: inject_def sendCall_def authenticate_def call_def no_reply_def new_Deluge_def
      example_config_def example_searchee_def truthy_opt_string_def Let_def)

text \<open>
  C2, as the code has it. Whenever the client answers every request with a JSON-RPC body
  (an object whose \<^verbatim>\<open>error\<close> is \<^verbatim>\<open>null\<close> or an error object, with a string for a message)
  and, for a searchee that carries an \<^verbatim>\<open>infoHash\<close>, lists the state of that torrent in its
  status, \<open>inject\<close> returns one of the four values of \<open>InjectionResult\<close> as an ordinary
  value. A fault is never one of these values: it is a \<^verbatim>\<open>CrossSeedError\<close> or a
  \<^verbatim>\<open>TypeError\<close>. When the client gives no reply at all, \<open>inject\<close> on an unauthenticated
  session, for a searchee without \<^verbatim>\<open>infoHash\<close>, does not return: it aborts with the
  connectivity fault of the login.
\<close>

theorem inject_returns_or_aborts:
  "(jsonrpc_client srv \<and>
    (truthy_opt_string (infoHash se) \<longrightarrow> lists_state srv (the (infoHash se)))
    \<longrightarrow> (\<exists>r s'. inject cfg srv nt se dl s = (Inr r, s') \<and>
                 r \<in> {SUCCESS, ALREADY_EXISTS, TORRENT_NOT_COMPLETE, FAILURE}))
   \<and>
   (\<not> loggedIn s \<and> \<not> truthy_opt_string (infoHash se) \<and> (\<forall>h req. srv h req = None)
    \<longrightarrow> (\<exists>s'. inject cfg srv nt se dl s =
                 (Inl (CrossSeedError (''Could not reach deluge: '' @ origin (delugeWebUrl s))), s')))"
proof (intro conjI impI)
  assume a: "jsonrpc_client srv \<and>
    (truthy_opt_string (infoHash se) \<longrightarrow> lists_state srv (the (infoHash se)))"
  then have resp: "responsive srv" by (simp add: jsonrpc_responsive)
  let ?ps = "formatData cfg (metafile_name nt @ ''.cross-seed.torrent'') (metafile_base64 nt) dl"
  have submit: "\<exists>r s'. inject cfg srv nt se dl s = (Inr r, s')"
    if k: "if truthy_opt_string (infoHash se)
            then checkCompleted srv (the (infoHash se)) s = (Inr (Some True), s1) else s1 = s"
    for s1
  proof -
    from sendCall_responsive [OF resp, of "''core.add_torrent_file''" ?ps s1]
    obtain pre req r v s2 where
      c: "sendCall srv ''core.add_torrent_file'' ?ps s1 = (Inr v, s2)"
      and v: "reply_value (Some r) = Inr v"
      and r: "srv (posted s1 @ pre) req = Some r"
      by blast
    from a obtain r' where "srv (posted s1 @ pre) req = Some r'" "jsonrpc_body (data r')"
      unfolding jsonrpc_client_def by blast
    with r have "jsonrpc_body (data r)" by simp
    from reply_value_jsonrpc [OF this] v obtain res where
      "get_prop v ''result'' = Inr res" "message_ok v" by auto
    from inject_returns [OF k c this] show ?thesis .
  qed
  have "\<exists>r s'. inject cfg srv nt se dl s = (Inr r, s')"
  proof (cases "truthy_opt_string (infoHash se)")
    case False
    then show ?thesis using submit [of s] by simp
  next
    case True
    with a have "lists_state srv (the (infoHash se))" by simp
    from checkCompleted_listed [OF resp this, of s] obtain c s1 where
      c: "checkCompleted srv (the (infoHash se)) s = (Inr c, s1)"
      by (cases "checkCompleted srv (the (infoHash se)) s") auto
    show ?thesis
    proof (cases "c = Some True")
      case yes: True
      with c True show ?thesis using submit [of s1] by simp
    next
      case no: False
      with c True show ?thesis by (simp add: inject_def)
    qed
  qed
  then show "\<exists>r s'. inject cfg srv nt se dl s = (Inr r, s') \<and>
                 r \<in> {SUCCESS, ALREADY_EXISTS, TORRENT_NOT_COMPLETE, FAILURE}"
    using InjectionResult_values by blast
next
  assume "\<not> loggedIn s \<and> \<not> truthy_opt_string (infoHash se) \<and> (\<forall>h req. srv h req = None)"
  then show "\<exists>s'. inject cfg srv nt se dl s =
                 (Inl (CrossSeedError (''Could not reach deluge: '' @ origin (delugeWebUrl s))), s')"
    by (simp add: inject_def sendCall_def authenticate_def call_def Let_def)
qed

text \<open>The simulated client with the source paused, and the unreachable client.\<close>

theorem inject_returns_or_aborts_witness:
  "jsonrpc_client (deluge_sim (JArr [JStr ''Label'']) (example_torrents ''Paused'')) \<and>
   truthy_opt_string (infoHash (example_searchee (Some ''abc123''))) \<and>
   lists_state (deluge_sim (JArr [JStr ''Label'']) (example_torrents ''Paused''))
     (the (infoHash (example_searchee (Some ''abc123'')))) \<and>
   (\<exists>r s'. inject example_config (deluge_sim (JArr [JStr ''Label'']) (example_torrents ''Paused''))
              example_metafile (example_searchee (Some ''abc123'')) None
              (example_session (JArr [JStr ''Label''])) = (Inr r, s') \<and>
           r \<in> {SUCCESS, ALREADY_EXISTS, TORRENT_NOT_COMPLETE, FAILURE}) \<and>
   \<not> loggedIn (new_Deluge example_config) \<and>
   \<not> truthy_opt_string (infoHash (example_searchee None)) \<and>
   (\<forall>h req. no_reply h req = None) \<and>
   (\<exists>s'. inject example_config no_reply example_metafile (example_searchee None) None
            (new_Deluge example_config)
          = (Inl (CrossSeedError (''Could not reach deluge: '' @
                    origin (delugeWebUrl (new_Deluge example_config)))), s'))"
  using inject_returns_or_aborts
    [where srv = "deluge_sim (JArr [JStr ''Label'']) (example_torrents ''Paused'')"
       and cfg = example_config and nt = example_metafile and dl = None
       and s = "example_session (JArr [JStr ''Label''])"
       and se = "example_searchee (Some ''abc123'')"]
    inject_returns_or_aborts
    [where srv = no_reply
       and cfg = example_config and nt = example_metafile and dl = None
       and s = "new_Deluge example_config"
       and se = "example_searchee None"]
    deluge_sim_jsonrpc deluge_sim_lists_state
  by (simp add: example_searchee_def truthy_opt_string_def no_reply_def new_Deluge_def)

end
